theory Spec2Isabelle
  imports Main "HOL-Library.Signed_Division"
begin

section \<open>Decimal text, as strconv and fmt produce and read it\<close>

text \<open>
  Redis keeps every value as a string and the Go client parses counters with
  \<open>strconv.Atoi\<close>; the codes are printed with \<open>fmt.Sprintf("%06d", n)\<close>. Both
  directions are modelled on \<open>string\<close> (a list of bytes).
\<close>

definition digit_char :: "nat \<Rightarrow> char" where
  "digit_char d = char_of (48 + d)"

definition is_digit :: "char \<Rightarrow> bool" where
  "is_digit c = (48 \<le> (of_char c :: nat) \<and> (of_char c :: nat) \<le> 57)"

definition digit_val :: "char \<Rightarrow> nat" where
  "digit_val c = of_char c - 48"

function nat_to_dec :: "nat \<Rightarrow> string" where
  "nat_to_dec n = (if n < 10 then [digit_char n] else nat_to_dec (n div 10) @ [digit_char (n mod 10)])"
  by pat_completeness auto
termination
  by (relation "measure (\<lambda>n. n)") auto

declare nat_to_dec.simps [simp del]

text \<open>\<open>strconv.Itoa\<close>: a minus sign, then the digits of the absolute value.\<close>

definition Itoa :: "int \<Rightarrow> string" where
  "Itoa i = (if i < 0 then CHR ''-'' # nat_to_dec (nat (- i)) else nat_to_dec (nat i))"

fun dec_val_acc :: "nat \<Rightarrow> string \<Rightarrow> nat option" where
  "dec_val_acc a [] = Some a"
| "dec_val_acc a (c # cs) = (if is_digit c then dec_val_acc (a * 10 + digit_val c) cs else None)"

text \<open>The value of a non-empty string of decimal digits; anything else has none.\<close>

definition dec_val :: "string \<Rightarrow> nat option" where
  "dec_val s = (if s = [] then None else dec_val_acc 0 s)"

text \<open>
  \<open>strconv.Atoi\<close> on a 64-bit platform: an optional sign, at least one digit, nothing
  else, and the value inside the range of \<open>int\<close>; \<open>None\<close> stands for its error.
\<close>

definition Atoi :: "string \<Rightarrow> int option" where
  "Atoi s =
     (case s of
        [] \<Rightarrow> None
      | c # cs \<Rightarrow>
          if c = CHR ''-'' then
            (case dec_val cs of
               None \<Rightarrow> None
             | Some n \<Rightarrow> if int n \<le> 2 ^ 63 then Some (- int n) else None)
          else
            (case dec_val (if c = CHR ''+'' then cs else s) of
               None \<Rightarrow> None
             | Some n \<Rightarrow> if int n < 2 ^ 63 then Some (int n) else None))"

text \<open>
  \<open>fmt.Sprintf("%06d", n)\<close>: the decimal digits padded with zeros to width six, the
  sign (if any) first and counted in the width.
\<close>

definition Sprintf_06d :: "int \<Rightarrow> string" where
  "Sprintf_06d i =
     (let ds = nat_to_dec (nat \<bar>i\<bar>) in
      if i < 0 then CHR ''-'' # replicate (5 - length ds) CHR ''0'' @ ds
      else replicate (6 - length ds) CHR ''0'' @ ds)"

section \<open>The environment: clock, cache, database, randomness, gateway\<close>

text \<open>
  Everything outside the repository is part of one explicit \<open>world\<close> that each
  operation takes and returns. Instants are Unix seconds and durations are whole seconds
  (the configuration gives minutes, the token library stores whole seconds); the
  sub-second part of the wall clock is kept apart for \<open>UnixNano\<close>.

  A remote call can fail for reasons the program does not control. Each such collaborator
  has a schedule of outcomes in the world: the head of the list says whether the next
  round trip fails, an empty list means that it does not.
\<close>

datatype err =
    RedisNil                 \<comment> \<open>\<open>redis.Nil\<close>: the key does not exist\<close>
  | RedisUnavailable         \<comment> \<open>any other failure of a cache round trip\<close>
  | RedisNotInteger          \<comment> \<open>the stored value is not an integer (server or \<open>Atoi\<close>)\<close>
  | ErrRecordNotFound        \<comment> \<open>\<open>gorm.ErrRecordNotFound\<close>\<close>
  | ErrDatabase              \<comment> \<open>any other failure of a database query\<close>
  | ErrNotFound              \<comment> \<open>the DAO's \<open>ErrNotFound\<close>\<close>
  | ErrUserNotFound          \<comment> \<open>\<open>domain.ErrUserNotFound\<close>\<close>
  | ErrSMSTooFrequent
  | ErrSMSDailyLimit
  | ErrSMSSendFailed
  | ErrSMSTemplateNotFound
  | ErrSMSCodeInvalid
  | ErrSMSVerifyTooMany
  | Errorf string            \<comment> \<open>\<open>fmt.Errorf\<close> with the rendered message\<close>
  | NilPointerPanic          \<comment> \<open>a method call through a nil \<open>*redis.Client\<close>\<close>

datatype redis_cmd =
    GET string
  | SET string string int
  | DEL string
  | INCR string
  | EXPIRE string int

record rentry =
  rval :: string
  rdeadline :: "int option"

record User =
  usr_UserID :: string
  usr_UserName :: string
  usr_PhoneNumber :: string

datatype event =
    EvRedis "redis_cmd list"           \<comment> \<open>one round trip to the cache (a pipeline has several commands)\<close>
  | EvFindByUserID string               \<comment> \<open>one query of the user table\<close>
  | EvUuidNew string                    \<comment> \<open>\<open>uuid.New()\<close> returned this id\<close>
  | EvGatewaySend string string string  \<comment> \<open>phone, template id, template parameter\<close>

record world =
  clock :: int
  clock_nanos :: int
  redis :: "string \<rightharpoonup> rentry"
  redis_faults :: "bool list"
  db_users :: "User list"
  db_faults :: "bool list"
  uuid_ctr :: nat
  entropy :: "nat list"
  gateway_faults :: "bool list"
  trace :: "event list"

definition next_fault :: "bool list \<Rightarrow> bool" where
  "next_fault fs = (case fs of [] \<Rightarrow> False | b # _ \<Rightarrow> b)"

definition log_event :: "event \<Rightarrow> world \<Rightarrow> world" where
  "log_event e w = w\<lparr>trace := trace w @ [e]\<rparr>"

subsection \<open>The cache (go-redis against a Redis server)\<close>

text \<open>A key whose deadline has passed is gone for every command.\<close>

definition live_entry :: "world \<Rightarrow> string \<Rightarrow> rentry option" where
  "live_entry w k =
     (case redis w k of
        None \<Rightarrow> None
      | Some e \<Rightarrow>
          (case rdeadline e of
             None \<Rightarrow> Some e
           | Some d \<Rightarrow> if clock w < d then Some e else None))"

definition redis_lookup :: "world \<Rightarrow> string \<Rightarrow> string option" where
  "redis_lookup w k = map_option rval (live_entry w k)"

text \<open>One round trip: the commands are logged and the next scheduled outcome is consumed.\<close>

definition redis_roundtrip :: "redis_cmd list \<Rightarrow> world \<Rightarrow> world" where
  "redis_roundtrip cmds w = log_event (EvRedis cmds) (w\<lparr>redis_faults := tl (redis_faults w)\<rparr>)"

definition rdb_Get :: "string \<Rightarrow> world \<Rightarrow> (err + string) \<times> world" where
  "rdb_Get k w =
     (let w' = redis_roundtrip [GET k] w in
      if next_fault (redis_faults w) then (Inl RedisUnavailable, w')
      else (case redis_lookup w k of
              None \<Rightarrow> (Inl RedisNil, w')
            | Some v \<Rightarrow> (Inr v, w')))"

text \<open>\<open>Get(...).Int()\<close>: the command's error if it has one, else \<open>strconv.Atoi\<close> of the value.\<close>

definition rdb_Get_Int :: "string \<Rightarrow> world \<Rightarrow> (err + int) \<times> world" where
  "rdb_Get_Int k w =
     (case rdb_Get k w of
        (Inl e, w') \<Rightarrow> (Inl e, w')
      | (Inr v, w') \<Rightarrow>
          (case Atoi v of
             None \<Rightarrow> (Inl RedisNotInteger, w')
           | Some n \<Rightarrow> (Inr n, w')))"

text \<open>
  \<open>SET key value\<close> with an expiration: a positive one gives the key a deadline, otherwise
  the key is stored without one.
\<close>

definition store_set :: "string \<Rightarrow> string \<Rightarrow> int \<Rightarrow> world \<Rightarrow> world" where
  "store_set k v ttl w =
     w\<lparr>redis := (redis w)(k \<mapsto> \<lparr>rval = v, rdeadline = (if 0 < ttl then Some (clock w + ttl) else None)\<rparr>)\<rparr>"

definition rdb_Set :: "string \<Rightarrow> string \<Rightarrow> int \<Rightarrow> world \<Rightarrow> err option \<times> world" where
  "rdb_Set k v ttl w =
     (let w' = redis_roundtrip [SET k v ttl] w in
      if next_fault (redis_faults w) then (Some RedisUnavailable, w')
      else (None, store_set k v ttl w'))"

definition store_del :: "string \<Rightarrow> world \<Rightarrow> world" where
  "store_del k w = w\<lparr>redis := (redis w)(k := None)\<rparr>"

definition rdb_Del :: "string \<Rightarrow> world \<Rightarrow> err option \<times> world" where
  "rdb_Del k w =
     (let w' = redis_roundtrip [DEL k] w in
      if next_fault (redis_faults w) then (Some RedisUnavailable, w')
      else (None, store_del k w'))"

text \<open>
  \<open>INCR\<close>: a missing key counts as 0 and the new key has no deadline; an existing key
  keeps its deadline. The server accepts only the canonical decimal form of a 64-bit
  integer and refuses to overflow.
\<close>

definition store_incr :: "string \<Rightarrow> world \<Rightarrow> err option \<times> world" where
  "store_incr k w =
     (case live_entry w k of
        None \<Rightarrow> (None, w\<lparr>redis := (redis w)(k \<mapsto> \<lparr>rval = ''1'', rdeadline = None\<rparr>)\<rparr>)
      | Some e \<Rightarrow>
          (case Atoi (rval e) of
             None \<Rightarrow> (Some RedisNotInteger, w)
           | Some n \<Rightarrow>
               if Itoa n \<noteq> rval e \<or> 2 ^ 63 - 1 \<le> n then (Some RedisNotInteger, w)
               else (None, w\<lparr>redis := (redis w)(k \<mapsto> e\<lparr>rval := Itoa (n + 1)\<rparr>)\<rparr>)))"

text \<open>\<open>EXPIRE\<close>: a live key gets a new deadline (a non-positive time deletes it).\<close>

definition store_expire :: "string \<Rightarrow> int \<Rightarrow> world \<Rightarrow> world" where
  "store_expire k ttl w =
     (case live_entry w k of
        None \<Rightarrow> w
      | Some e \<Rightarrow>
          if 0 < ttl then w\<lparr>redis := (redis w)(k \<mapsto> e\<lparr>rdeadline := Some (clock w + ttl)\<rparr>)\<rparr>
          else store_del k w)"

text \<open>
  A pipeline is one round trip. When it reaches the server every command runs, in order,
  and \<open>Exec\<close> returns the first command error.
\<close>

fun run_cmd :: "redis_cmd \<Rightarrow> world \<Rightarrow> err option \<times> world" where
  "run_cmd (GET k) w = ((case redis_lookup w k of None \<Rightarrow> Some RedisNil | Some _ \<Rightarrow> None), w)"
| "run_cmd (SET k v ttl) w = (None, store_set k v ttl w)"
| "run_cmd (DEL k) w = (None, store_del k w)"
| "run_cmd (INCR k) w = store_incr k w"
| "run_cmd (EXPIRE k ttl) w = (None, store_expire k ttl w)"

fun run_cmds :: "redis_cmd list \<Rightarrow> world \<Rightarrow> err option \<times> world" where
  "run_cmds [] w = (None, w)"
| "run_cmds (c # cs) w =
     (case run_cmd c w of
        (e, w1) \<Rightarrow>
          (case run_cmds cs w1 of
             (e', w2) \<Rightarrow> ((case e of None \<Rightarrow> e' | Some _ \<Rightarrow> e), w2)))"

definition pipe_Exec :: "redis_cmd list \<Rightarrow> world \<Rightarrow> err option \<times> world" where
  "pipe_Exec cmds w =
     (let w' = redis_roundtrip cmds w in
      if next_fault (redis_faults w) then (Some RedisUnavailable, w')
      else run_cmds cmds w')"

subsection \<open>The user table (gorm behind the DAO)\<close>

definition DAO_FindByUserID :: "string \<Rightarrow> world \<Rightarrow> (err + User) \<times> world" where
  "DAO_FindByUserID userID w =
     (let w' = log_event (EvFindByUserID userID) (w\<lparr>db_faults := tl (db_faults w)\<rparr>);
          r = (if next_fault (db_faults w) then Inl ErrDatabase
               else (case find (\<lambda>u. usr_UserID u = userID) (db_users w) of
                       None \<Rightarrow> Inl ErrRecordNotFound
                     | Some u \<Rightarrow> Inr u))
      in (case r of
            Inl e \<Rightarrow> if e = ErrRecordNotFound then (Inl ErrNotFound, w') else (Inl e, w')
          | Inr entity \<Rightarrow> (Inr entity, w')))"

definition Repository_FindByUserID :: "string \<Rightarrow> world \<Rightarrow> (err + User) \<times> world" where
  "Repository_FindByUserID userID w =
     (case DAO_FindByUserID userID w of
        (Inl e, w') \<Rightarrow> if e = ErrNotFound then (Inl ErrUserNotFound, w') else (Inl e, w')
      | (Inr entity, w') \<Rightarrow> (Inr entity, w'))"

subsection \<open>Fresh identifiers\<close>

text \<open>
  \<open>uuid.New()\<close> is modelled as a supply that never repeats: the n-th call returns the
  rendering of n. Collision freedom of random UUIDs is assumed here, not proved.
\<close>

definition uuid_String :: "nat \<Rightarrow> string" where
  "uuid_String n = ''uuid-'' @ nat_to_dec n"

definition uuid_New :: "world \<Rightarrow> string \<times> world" where
  "uuid_New w =
     (let u = uuid_String (uuid_ctr w)
      in (u, log_event (EvUuidNew u) (w\<lparr>uuid_ctr := Suc (uuid_ctr w)\<rparr>)))"

section \<open>Signed tokens (github.com/golang-jwt/jwt/v5)\<close>

text \<open>
  The token library is not part of the repository. A compact token is modelled
  symbolically: it carries its header algorithm, its claims and the key it was signed
  with, and a signature verifies exactly under that key. Any other string is malformed.
  Only the registered claims the manager sets (id, issued-at, expiry) are kept.
\<close>

datatype signing_method = HS256 | HS384 | HS512 | NonHMAC string

datatype jwt_error =
    ErrInvalidKeyType
  | ErrTokenMalformed
  | ErrTokenUnverifiable
  | ErrTokenSignatureInvalid
  | ErrTokenExpired

record Claims =
  UserID :: string
  TokenType :: string
  ID :: string
  IssuedAt :: "int option"
  ExpiresAt :: "int option"

datatype token_string = Malformed string | Compact signing_method Claims string

text \<open>The claims a compact token carries, read without verifying anything.\<close>

definition token_claims :: "token_string \<Rightarrow> Claims option" where
  "token_claims t = (case t of Malformed _ \<Rightarrow> None | Compact _ c _ \<Rightarrow> Some c)"

definition is_HMAC :: "signing_method \<Rightarrow> bool" where
  "is_HMAC alg = (case alg of NonHMAC _ \<Rightarrow> False | _ \<Rightarrow> True)"

text \<open>\<open>NewWithClaims(alg, claims).SignedString(key)\<close> with a byte-slice key.\<close>

definition SignedString :: "signing_method \<Rightarrow> Claims \<Rightarrow> string \<Rightarrow> jwt_error + token_string" where
  "SignedString alg c key = (if is_HMAC alg then Inr (Compact alg c key) else Inl ErrInvalidKeyType)"

text \<open>
  \<open>ParseWithClaims\<close> with its default validator: decode, ask the key function for the
  key, verify the signature, then reject a token whose expiry is not after now. It
  returns the claims and the token's \<open>Valid\<close> flag.
\<close>

definition ParseWithClaims ::
  "int \<Rightarrow> token_string \<Rightarrow> (signing_method \<Rightarrow> err + string) \<Rightarrow> jwt_error + (Claims \<times> bool)" where
  "ParseWithClaims now tokenString keyFunc =
     (case tokenString of
        Malformed _ \<Rightarrow> Inl ErrTokenMalformed
      | Compact alg c signedWith \<Rightarrow>
          (case keyFunc alg of
             Inl _ \<Rightarrow> Inl ErrTokenUnverifiable
           | Inr key \<Rightarrow>
               if \<not> (is_HMAC alg \<and> signedWith = key) then Inl ErrTokenSignatureInvalid
               else (case ExpiresAt c of
                       None \<Rightarrow> Inr (c, True)
                     | Some e \<Rightarrow> if now < e then Inr (c, True) else Inl ErrTokenExpired)))"

section \<open>Package jwt: the token manager\<close>

definition TokenTypeAccess :: string where
  "TokenTypeAccess = ''access''"

definition TokenTypeRefresh :: string where
  "TokenTypeRefresh = ''refresh''"

definition DefaultAccessTokenDuration :: int where
  "DefaultAccessTokenDuration = 15 * 60"

definition DefaultRefreshTokenDuration :: int where
  "DefaultRefreshTokenDuration = 7 * 24 * 3600"

record Config =
  Secret :: string
  AccessExpire :: int
  RefreshExpire :: int
  CookieSecure :: bool

record TokenPair =
  AccessToken :: token_string
  RefreshToken :: token_string

record Manager =
  secret :: string
  accessExpire :: int
  refreshExpire :: int
  cookieSecure :: bool

definition NewManager :: "Config \<Rightarrow> Manager" where
  "NewManager cfg =
     \<lparr>secret = Secret cfg,
      accessExpire = (if 0 < AccessExpire cfg then AccessExpire cfg else DefaultAccessTokenDuration),
      refreshExpire = (if 0 < RefreshExpire cfg then RefreshExpire cfg else DefaultRefreshTokenDuration),
      cookieSecure = CookieSecure cfg\<rparr>"

datatype generate_error =
    SignAccessToken jwt_error     \<comment> \<open>\<open>"sign access token: %w"\<close>\<close>
  | SignRefreshToken jwt_error    \<comment> \<open>\<open>"sign refresh token: %w"\<close>\<close>

definition GenerateTokenPair :: "Manager \<Rightarrow> string \<Rightarrow> world \<Rightarrow> (generate_error + TokenPair) \<times> world" where
  "GenerateTokenPair m userID w =
     (let now = clock w;
          (accessJTI, w1) = uuid_New w;
          accessClaims = \<lparr>UserID = userID, TokenType = TokenTypeAccess, ID = accessJTI,
                          IssuedAt = Some now, ExpiresAt = Some (now + accessExpire m)\<rparr>
      in (case SignedString HS256 accessClaims (secret m) of
            Inl e \<Rightarrow> (Inl (SignAccessToken e), w1)
          | Inr accessTokenString \<Rightarrow>
              (let (refreshJTI, w2) = uuid_New w1;
                   refreshClaims = \<lparr>UserID = userID, TokenType = TokenTypeRefresh, ID = refreshJTI,
                                    IssuedAt = Some now, ExpiresAt = Some (now + refreshExpire m)\<rparr>
               in (case SignedString HS256 refreshClaims (secret m) of
                     Inl e \<Rightarrow> (Inl (SignRefreshToken e), w2)
                   | Inr refreshTokenString \<Rightarrow>
                       (Inr \<lparr>AccessToken = accessTokenString, RefreshToken = refreshTokenString\<rparr>, w2)))))"

datatype parse_error =
    ParseFailed jwt_error        \<comment> \<open>\<open>"parse token: %w"\<close>\<close>
  | InvalidTokenClaims           \<comment> \<open>\<open>"invalid token claims"\<close>\<close>
  | WrongKind string string      \<comment> \<open>\<open>"expected %s token, got %s"\<close>\<close>

definition keyFunc :: "Manager \<Rightarrow> signing_method \<Rightarrow> err + string" where
  "keyFunc m alg =
     (if \<not> is_HMAC alg then Inl (Errorf ''unexpected signing method'') else Inr (secret m))"

definition ParseToken :: "Manager \<Rightarrow> token_string \<Rightarrow> string \<Rightarrow> world \<Rightarrow> parse_error + Claims" where
  "ParseToken m tokenString expectedType w =
     (case ParseWithClaims (clock w) tokenString (keyFunc m) of
        Inl e \<Rightarrow> Inl (ParseFailed e)
      | Inr (claims, valid) \<Rightarrow>
          if \<not> valid then Inl InvalidTokenClaims
          else if TokenType claims \<noteq> expectedType then Inl (WrongKind expectedType (TokenType claims))
          else Inr claims)"

definition blacklist_key :: "string \<Rightarrow> string" where
  "blacklist_key jti = ''token:blacklist:'' @ jti"

definition IsTokenBlacklisted :: "Manager \<Rightarrow> string \<Rightarrow> world \<Rightarrow> (err + bool) \<times> world" where
  "IsTokenBlacklisted m jti w =
     (case rdb_Get (blacklist_key jti) w of
        (Inl e, w') \<Rightarrow> if e = RedisNil then (Inr False, w') else (Inl e, w')
      | (Inr val, w') \<Rightarrow> (Inr (val = ''1''), w'))"

definition AddTokenToBlacklist :: "Manager \<Rightarrow> string \<Rightarrow> int \<Rightarrow> world \<Rightarrow> err option \<times> world" where
  "AddTokenToBlacklist m jti expiration w = rdb_Set (blacklist_key jti) ''1'' expiration w"

definition RevokeRefreshToken :: "Manager \<Rightarrow> string \<Rightarrow> world \<Rightarrow> err option \<times> world" where
  "RevokeRefreshToken m jti w = AddTokenToBlacklist m jti (refreshExpire m) w"

definition GetAccessExpire :: "Manager \<Rightarrow> int" where
  "GetAccessExpire m = accessExpire m"

definition GetRefreshExpire :: "Manager \<Rightarrow> int" where
  "GetRefreshExpire m = refreshExpire m"

section \<open>Package response: business codes\<close>

definition CodeTokenInvalid :: int where
  "CodeTokenInvalid = 100103"

definition CodeUserNotFound :: int where
  "CodeUserNotFound = 200105"

definition CodeInternal :: int where
  "CodeInternal = 900101"

definition CodeCacheError :: int where
  "CodeCacheError = 900103"

definition IsAuthError :: "int \<Rightarrow> bool" where
  "IsAuthError code = (100100 \<le> code \<and> code < 100200)"


text \<open>
  \<open>response.Result\<close> as an error value. The messages of the source are Chinese; the
  model carries an English gloss of each.
\<close>

record Result =
  Code :: int
  Message :: string

definition response_Err :: "int \<Rightarrow> string \<Rightarrow> Result" where
  "response_Err code message = \<lparr>Code = code, Message = message\<rparr>"

section \<open>Package user: the token flows of the service\<close>

text \<open>Tracing spans only record what happened; they are left out.\<close>

definition service_RefreshToken :: "Manager \<Rightarrow> token_string \<Rightarrow> world \<Rightarrow> (Result + TokenPair) \<times> world" where
  "service_RefreshToken jwtManager refreshToken w =
     (case ParseToken jwtManager refreshToken TokenTypeRefresh w of
        Inl _ \<Rightarrow> (Inl (response_Err CodeTokenInvalid ''refresh token invalid''), w)
      | Inr claims \<Rightarrow>
          (case IsTokenBlacklisted jwtManager (ID claims) w of
             (Inl _, w1) \<Rightarrow> (Inl (response_Err CodeCacheError ''checking the token state failed''), w1)
           | (Inr blacklisted, w1) \<Rightarrow>
               if blacklisted then (Inl (response_Err CodeTokenInvalid ''refresh token no longer valid''), w1)
               else
                 (case Repository_FindByUserID (UserID claims) w1 of
                    (Inl _, w2) \<Rightarrow> (Inl (response_Err CodeUserNotFound ''user not found''), w2)
                  | (Inr _, w2) \<Rightarrow>
                      (case RevokeRefreshToken jwtManager (ID claims) w2 of
                         (Some _, w3) \<Rightarrow> (Inl (response_Err CodeCacheError ''token rotation failed''), w3)
                       | (None, w3) \<Rightarrow>
                           (case GenerateTokenPair jwtManager (UserID claims) w3 of
                              (Inl _, w4) \<Rightarrow> (Inl (response_Err CodeInternal ''generating tokens failed''), w4)
                            | (Inr newTokenPair, w4) \<Rightarrow> (Inr newTokenPair, w4))))))"

text \<open>\<open>Logout\<close> blacklists both ids; a failed write is recorded on the span and ignored.\<close>

definition service_Logout :: "Manager \<Rightarrow> string \<Rightarrow> string \<Rightarrow> world \<Rightarrow> err option \<times> world" where
  "service_Logout jwtManager accessJTI refreshJTI w =
     (let w1 = (if accessJTI \<noteq> [] then snd (AddTokenToBlacklist jwtManager accessJTI (GetAccessExpire jwtManager) w) else w);
          w2 = (if refreshJTI \<noteq> [] then snd (RevokeRefreshToken jwtManager refreshJTI w1) else w1)
      in (None, w2))"

text \<open>Time passing between two calls.\<close>

definition advance :: "int \<Rightarrow> world \<Rightarrow> world" where
  "advance d w = w\<lparr>clock := clock w + d\<rparr>"

text \<open>The \<open>TTL\<close> command: the time a live key has left, if it has a deadline.\<close>

definition redis_TTL :: "world \<Rightarrow> string \<Rightarrow> int option" where
  "redis_TTL w k =
     (case live_entry w k of
        None \<Rightarrow> None
      | Some e \<Rightarrow> (case rdeadline e of None \<Rightarrow> None | Some d \<Rightarrow> Some (d - clock w)))"

text \<open>The world in which a rotation mints the new pair, when every check passes.\<close>

definition rotated_world :: "Manager \<Rightarrow> Claims \<Rightarrow> world \<Rightarrow> world" where
  "rotated_world m claims w =
     store_set (blacklist_key (ID claims)) ''1'' (refreshExpire m)
       (redis_roundtrip [SET (blacklist_key (ID claims)) ''1'' (refreshExpire m)]
         (log_event (EvFindByUserID (UserID claims))
           (redis_roundtrip [GET (blacklist_key (ID claims))] w\<lparr>db_faults := tl (db_faults w)\<rparr>)))"

section \<open>Formatting keys (fmt.Sprintf with the verb \<open>%s\<close>)\<close>

text \<open>
  The key formats only use \<open>%s\<close>. Each one prints the next operand; when the operands
  run out it prints \<open>%!s(MISSING)\<close>, and operands left over are appended as
  \<open>%!(EXTRA type=value, ...)\<close>. An operand is given with the name of its Go type.
\<close>

fun extra_operands :: "(string \<times> string) list \<Rightarrow> string" where
  "extra_operands [] = []"
| "extra_operands [a] = fst a @ ''='' @ snd a"
| "extra_operands (a # b # bs) = fst a @ ''='' @ snd a @ '', '' @ extra_operands (b # bs)"

fun Sprintf_s :: "string \<Rightarrow> (string \<times> string) list \<Rightarrow> string" where
  "Sprintf_s [] args = (if args = [] then [] else ''%!(EXTRA '' @ extra_operands args @ '')'')"
| "Sprintf_s [c] args = c # Sprintf_s [] args"
| "Sprintf_s (c # d # cs) args =
     (if c = CHR ''%'' \<and> d = CHR ''s'' then
        (case args of
           [] \<Rightarrow> ''%!s(MISSING)'' @ Sprintf_s cs []
         | a # rest \<Rightarrow> snd a @ Sprintf_s cs rest)
      else c # Sprintf_s (d # cs) args)"

section \<open>arch3: the verification codes on the cache (CacheRepository)\<close>

definition codeKeyFormat :: string where
  "codeKeyFormat = ''sms:code:%s:%s''"

definition minuteKeyFormat :: string where
  "minuteKeyFormat = ''sms:minute:%s:%s''"

definition dayKeyFormat :: string where
  "dayKeyFormat = ''sms:day:%s:%s''"

definition verifyFailKeyFormat :: string where
  "verifyFailKeyFormat = ''sms:verify_fail:%s:%s''"

definition verifyFailTTL :: int where
  "verifyFailTTL = 1 * 3600"

definition codeKey :: "string \<Rightarrow> string \<Rightarrow> string" where
  "codeKey smsType phone = Sprintf_s codeKeyFormat [(''user.SMSType'', smsType), (''string'', phone)]"

definition minuteKey :: "string \<Rightarrow> string \<Rightarrow> string" where
  "minuteKey smsType phone = Sprintf_s minuteKeyFormat [(''user.SMSType'', smsType), (''string'', phone)]"

definition dayKey :: "string \<Rightarrow> string \<Rightarrow> string" where
  "dayKey smsType phone = Sprintf_s dayKeyFormat [(''user.SMSType'', smsType), (''string'', phone)]"

definition verifyFailKey :: "string \<Rightarrow> string \<Rightarrow> string" where
  "verifyFailKey smsType phone = Sprintf_s verifyFailKeyFormat [(''user.SMSType'', smsType), (''string'', phone)]"

definition StoreCode :: "string \<Rightarrow> string \<Rightarrow> string \<Rightarrow> int \<Rightarrow> world \<Rightarrow> err option \<times> world" where
  "StoreCode smsType phone code ttl w = rdb_Set (codeKey smsType phone) code ttl w"

definition GetCode :: "string \<Rightarrow> string \<Rightarrow> world \<Rightarrow> (err + string) \<times> world" where
  "GetCode smsType phone w =
     (case rdb_Get (codeKey smsType phone) w of
        (Inl e, w') \<Rightarrow> if e = RedisNil then (Inl ErrSMSCodeInvalid, w') else (Inl e, w')
      | (Inr code, w') \<Rightarrow> (Inr code, w'))"

definition DeleteCode :: "string \<Rightarrow> string \<Rightarrow> world \<Rightarrow> err option \<times> world" where
  "DeleteCode smsType phone w = rdb_Del (codeKey smsType phone) w"

text \<open>A counter that does not exist reads as 0 (\<open>Int()\<close> returns 0 with \<open>redis.Nil\<close>).\<close>

definition GetSendCount :: "string \<Rightarrow> string \<Rightarrow> world \<Rightarrow> (err + int \<times> int) \<times> world" where
  "GetSendCount smsType phone w =
     (case rdb_Get_Int (minuteKey smsType phone) w of
        (r1, w1) \<Rightarrow>
          (case (case r1 of Inl e \<Rightarrow> if e = RedisNil then Inr 0 else Inl e | Inr n \<Rightarrow> Inr n) of
             Inl e \<Rightarrow> (Inl e, w1)
           | Inr minuteCount \<Rightarrow>
               (case rdb_Get_Int (dayKey smsType phone) w1 of
                  (r2, w2) \<Rightarrow>
                    (case (case r2 of Inl e \<Rightarrow> if e = RedisNil then Inr 0 else Inl e | Inr n \<Rightarrow> Inr n) of
                       Inl e \<Rightarrow> (Inl e, w2)
                     | Inr dayCount \<Rightarrow> (Inr (minuteCount, dayCount), w2)))))"

definition IncrSendCount :: "string \<Rightarrow> string \<Rightarrow> world \<Rightarrow> err option \<times> world" where
  "IncrSendCount smsType phone w =
     pipe_Exec [INCR (minuteKey smsType phone), EXPIRE (minuteKey smsType phone) 60,
                INCR (dayKey smsType phone), EXPIRE (dayKey smsType phone) (24 * 3600)] w"

definition GetVerifyFailCount :: "string \<Rightarrow> string \<Rightarrow> world \<Rightarrow> (err + int) \<times> world" where
  "GetVerifyFailCount smsType phone w =
     (case rdb_Get_Int (verifyFailKey smsType phone) w of
        (Inl e, w') \<Rightarrow> if e = RedisNil then (Inr 0, w') else (Inl e, w')
      | (Inr count, w') \<Rightarrow> (Inr count, w'))"

definition IncrVerifyFailCount :: "string \<Rightarrow> string \<Rightarrow> world \<Rightarrow> err option \<times> world" where
  "IncrVerifyFailCount smsType phone w =
     pipe_Exec [INCR (verifyFailKey smsType phone), EXPIRE (verifyFailKey smsType phone) verifyFailTTL] w"

definition ResetVerifyFailCount :: "string \<Rightarrow> string \<Rightarrow> world \<Rightarrow> err option \<times> world" where
  "ResetVerifyFailCount smsType phone w = rdb_Del (verifyFailKey smsType phone) w"

section \<open>arch3: the SMS client (package volcengine)\<close>

definition codeTTL :: int where
  "codeTTL = 5 * 60"

definition maxPerMin :: int where
  "maxPerMin = 1"

definition maxPerDay :: int where
  "maxPerDay = 6"

definition maxVerifyFails :: int where
  "maxVerifyFails = 5"

record sms_Config =
  Provider :: string
  AccessKey :: string
  SecretKey :: string
  SmsAccount :: string
  SignName :: string
  Templates :: "string \<rightharpoonup> string"

definition checkSendLimit :: "string \<Rightarrow> string \<Rightarrow> world \<Rightarrow> err option \<times> world" where
  "checkSendLimit smsType phone w =
     (case GetSendCount smsType phone w of
        (Inl e, w') \<Rightarrow> (Some e, w')
      | (Inr (minuteCount, dayCount), w') \<Rightarrow>
          if maxPerMin \<le> minuteCount then (Some ErrSMSTooFrequent, w')
          else if maxPerDay \<le> dayCount then (Some ErrSMSDailyLimit, w')
          else (None, w'))"

text \<open>The template parameter \<open>{"code":"%s"}\<close>; the double quote is byte 0x22.\<close>

definition template_param :: "string \<Rightarrow> string" where
  "template_param code = ''{'' @ [CHR 0x22] @ ''code'' @ [CHR 0x22] @ '':'' @ [CHR 0x22] @ code @ [CHR 0x22] @ ''}''"

text \<open>
  The gateway call. The provider's SDK is external: the request is logged and the
  outcome is read from the schedule of the gateway.
\<close>

definition sendSMS :: "sms_Config \<Rightarrow> string \<Rightarrow> string \<Rightarrow> string \<Rightarrow> world \<Rightarrow> err option \<times> world" where
  "sendSMS cfg phone templateID code w =
     (let w' = log_event (EvGatewaySend phone templateID (template_param code))
                 (w\<lparr>gateway_faults := tl (gateway_faults w)\<rparr>)
      in if next_fault (gateway_faults w) then (Some (Errorf ''sms send err''), w') else (None, w'))"

definition UnixNano :: "world \<Rightarrow> int" where
  "UnixNano w = clock w * 1000000000 + clock_nanos w"

text \<open>
  \<open>generateCode\<close>: a number below 1000000 from \<open>crypto/rand\<close> (the next value of the
  entropy of the world; none left stands for the reader's error), or else the wall clock
  in nanoseconds modulo 1000000, with Go's truncated remainder.
\<close>

definition generateCode :: "world \<Rightarrow> string \<times> world" where
  "generateCode w =
     (case entropy w of
        [] \<Rightarrow> (Sprintf_06d (UnixNano w smod 1000000), w)
      | n # rest \<Rightarrow> (Sprintf_06d (int (n mod 1000000)), w\<lparr>entropy := rest\<rparr>))"

definition Send :: "sms_Config \<Rightarrow> string \<Rightarrow> string \<Rightarrow> world \<Rightarrow> err option \<times> world" where
  "Send cfg smsType phone w =
     (case Templates cfg smsType of
        None \<Rightarrow> (Some ErrSMSTemplateNotFound, w)
      | Some templateID \<Rightarrow>
          (case checkSendLimit smsType phone w of
             (Some e, w1) \<Rightarrow> (Some e, w1)
           | (None, w1) \<Rightarrow>
               (case generateCode w1 of
                  (code, w2) \<Rightarrow>
                    (case StoreCode smsType phone code codeTTL w2 of
                       (Some e, w3) \<Rightarrow> (Some e, w3)
                     | (None, w3) \<Rightarrow>
                         (case sendSMS cfg phone templateID code w3 of
                            (Some e, w4) \<Rightarrow> (Some ErrSMSSendFailed, snd (DeleteCode smsType phone w4))
                          | (None, w4) \<Rightarrow>
                              (None, snd (ResetVerifyFailCount smsType phone
                                            (snd (IncrSendCount smsType phone w4)))))))))"

definition Verify :: "sms_Config \<Rightarrow> string \<Rightarrow> string \<Rightarrow> string \<Rightarrow> world \<Rightarrow> err option \<times> world" where
  "Verify cfg smsType phone code w =
     (case GetVerifyFailCount smsType phone w of
        (Inl e, w1) \<Rightarrow> (Some e, w1)
      | (Inr failCount, w1) \<Rightarrow>
          if maxVerifyFails \<le> failCount then (Some ErrSMSVerifyTooMany, w1)
          else
            (case GetCode smsType phone w1 of
               (Inl e, w2) \<Rightarrow> (Some ErrSMSCodeInvalid, w2)
             | (Inr storedCode, w2) \<Rightarrow>
                 if storedCode \<noteq> code then
                   (Some ErrSMSCodeInvalid, snd (IncrVerifyFailCount smsType phone w2))
                 else
                   (None, snd (ResetVerifyFailCount smsType phone (snd (DeleteCode smsType phone w2))))))"

text \<open>
  Verification attempts one after the other, with the result of each. An attempt is a
  pair of the time that passes before the call and the code that is supplied.
\<close>

fun Verify_each :: "sms_Config \<Rightarrow> string \<Rightarrow> string \<Rightarrow> (int \<times> string) list \<Rightarrow> world \<Rightarrow> err option list \<times> world" where
  "Verify_each cfg smsType phone [] w = ([], w)"
| "Verify_each cfg smsType phone ((d, code) # attempts) w =
     (case Verify cfg smsType phone code (advance d w) of
        (r, w1) \<Rightarrow>
          (case Verify_each cfg smsType phone attempts w1 of
             (rs, w2) \<Rightarrow> (r # rs, w2)))"

text \<open>
  The fail counter of (purpose, phone) holds \<open>n\<close>: no live entry stands for 0, and a live
  entry holds the decimal text of a positive count.
\<close>

definition fail_count_is :: "world \<Rightarrow> string \<Rightarrow> string \<Rightarrow> int \<Rightarrow> bool" where
  "fail_count_is w smsType phone n =
     (case live_entry w (verifyFailKey smsType phone) of
        None \<Rightarrow> n = 0
      | Some e \<Rightarrow> rval e = Itoa n \<and> 0 < n \<and> n < 2 ^ 63 - 1)"

section \<open>archv2: the SMS client (VolcengineClient)\<close>

definition v2_minuteKeyFormat :: string where
  "v2_minuteKeyFormat = ''sms:minute:%s''"

definition v2_dayKeyFormat :: string where
  "v2_dayKeyFormat = ''sms:day:%s''"

definition v2_logicalKeyFormat :: string where
  "v2_logicalKeyFormat = ''sms:logical:%s:%s''"

text \<open>
  The client holds its configuration and a cache client that may be nil. \<open>math/rand\<close>
  seeded with the clock is a function of the seed that the repository does not contain:
  \<open>rand_Intn\<close> is the first \<open>Intn(1000000)\<close> after \<open>Seed(s)\<close>.
\<close>

record VolcengineClient =
  config :: sms_Config
  rdb_set :: bool
  rand_Intn :: "int \<Rightarrow> nat"

definition getRedisKey :: "string \<Rightarrow> string \<Rightarrow> string \<Rightarrow> string" where
  "getRedisKey format phone smsType =
     (if smsType = ''register'' \<or> smsType = ''login'' \<or> smsType = ''forget''
      then Sprintf_s format [(''sms.Type'', smsType), (''string'', phone)]
      else Sprintf_s format [(''string'', phone)])"

definition v2_checkSendLimit :: "VolcengineClient \<Rightarrow> string \<Rightarrow> string \<Rightarrow> world \<Rightarrow> err option \<times> world" where
  "v2_checkSendLimit c smsType phone w =
     (if \<not> rdb_set c then (None, w)
      else
        (case rdb_Get_Int (getRedisKey v2_minuteKeyFormat phone smsType) w of
           (r1, w1) \<Rightarrow>
             (case (case r1 of Inl e \<Rightarrow> if e = RedisNil then Inr 0 else Inl e | Inr n \<Rightarrow> Inr n) of
                Inl e \<Rightarrow> (Some e, w1)
              | Inr minuteCount \<Rightarrow>
                  if 1 \<le> minuteCount then (Some (Errorf ''at most 1 per minute''), w1)
                  else
                    (case rdb_Get_Int (getRedisKey v2_dayKeyFormat phone smsType) w1 of
                       (r2, w2) \<Rightarrow>
                         (case (case r2 of Inl e \<Rightarrow> if e = RedisNil then Inr 0 else Inl e | Inr n \<Rightarrow> Inr n) of
                            Inl e \<Rightarrow> (Some e, w2)
                          | Inr dayCount \<Rightarrow>
                              if 6 \<le> dayCount then (Some (Errorf ''at most 6 per day''), w2)
                              else (None, w2))))))"

definition v2_storeCode :: "VolcengineClient \<Rightarrow> string \<Rightarrow> string \<Rightarrow> string \<Rightarrow> world \<Rightarrow> err option \<times> world" where
  "v2_storeCode c smsType phone code w =
     (if \<not> rdb_set c then (None, w)
      else rdb_Set (getRedisKey v2_logicalKeyFormat phone smsType) code (5 * 60) w)"

definition v2_recordSend :: "VolcengineClient \<Rightarrow> string \<Rightarrow> string \<Rightarrow> world \<Rightarrow> err option \<times> world" where
  "v2_recordSend c smsType phone w =
     (if \<not> rdb_set c then (None, w)
      else pipe_Exec [INCR (getRedisKey v2_minuteKeyFormat phone smsType),
                      EXPIRE (getRedisKey v2_minuteKeyFormat phone smsType) 60,
                      INCR (getRedisKey v2_dayKeyFormat phone smsType),
                      EXPIRE (getRedisKey v2_dayKeyFormat phone smsType) (24 * 3600)] w)"

definition v2_generateCode :: "VolcengineClient \<Rightarrow> world \<Rightarrow> string" where
  "v2_generateCode c w = Sprintf_06d (int (rand_Intn c (UnixNano w) mod 1000000))"

definition v2_Send :: "VolcengineClient \<Rightarrow> string \<Rightarrow> string \<Rightarrow> world \<Rightarrow> err option \<times> world" where
  "v2_Send c smsType phone w =
     (case v2_checkSendLimit c smsType phone w of
        (Some e, w1) \<Rightarrow> (Some e, w1)
      | (None, w1) \<Rightarrow>
          (let code = v2_generateCode c w1 in
           case v2_storeCode c smsType phone code w1 of
             (Some e, w2) \<Rightarrow> (Some e, w2)
           | (None, w2) \<Rightarrow>
               (case Templates (config c) smsType of
                  None \<Rightarrow> (Some (Errorf (''unsupported sms type: '' @ smsType)), w2)
                | Some templateID \<Rightarrow>
                    (case sendSMS (config c) phone templateID code w2 of
                       (Some e, w3) \<Rightarrow> (Some (Errorf ''sending the sms failed''), w3)
                     | (None, w3) \<Rightarrow> (None, snd (v2_recordSend c smsType phone w3))))))"

text \<open>
  \<open>Verify\<close> of archv2. The three errors are \<open>fmt.Errorf\<close> values with different Chinese
  messages, glossed here. A call through a nil cache client panics.
\<close>

definition v2_Verify :: "VolcengineClient \<Rightarrow> string \<Rightarrow> string \<Rightarrow> string \<Rightarrow> world \<Rightarrow> err option \<times> world" where
  "v2_Verify c smsType phone code w =
     (if code = ''777777'' then (None, w)
      else if \<not> rdb_set c then (Some NilPointerPanic, w)
      else
        (case rdb_Get (getRedisKey v2_logicalKeyFormat phone smsType) w of
           (Inl e, w1) \<Rightarrow>
             if e = RedisNil then (Some (Errorf ''code expired or does not exist''), w1)
             else (Some (Errorf ''fetching the code failed''), w1)
         | (Inr storedCode, w1) \<Rightarrow>
             if storedCode \<noteq> code then (Some (Errorf ''code is not correct''), w1)
             else (None, snd (rdb_Del (getRedisKey v2_logicalKeyFormat phone smsType) w1))))"

section \<open>Concrete scenarios\<close>

definition demo_user :: User where
  "demo_user = \<lparr>usr_UserID = ''u1'', usr_UserName = ''user_0000'', usr_PhoneNumber = ''13800000000''\<rparr>"

definition demo_world :: world where
  "demo_world =
     \<lparr>clock = 1000, clock_nanos = 0, redis = Map.empty, redis_faults = [],
      db_users = [demo_user], db_faults = [], uuid_ctr = 0, entropy = [482913],
      gateway_faults = [], trace = []\<rparr>"

definition demo_config :: Config where
  "demo_config = \<lparr>Secret = ''k'', AccessExpire = 0, RefreshExpire = 0, CookieSecure = False\<rparr>"

text \<open>The world right after the demo manager has minted a pair for user \<open>u1\<close>.\<close>

definition demo_world_minted :: world where
  "demo_world_minted = snd (GenerateTokenPair (NewManager demo_config) ''u1'' demo_world)"

text \<open>The refresh token that the demo manager mints at time 1000 for user \<open>u1\<close>.\<close>

definition demo_refresh_claims :: Claims where
  "demo_refresh_claims =
     \<lparr>UserID = ''u1'', TokenType = ''refresh'', ID = ''uuid-1'',
      IssuedAt = Some 1000, ExpiresAt = Some 605800\<rparr>"

definition demo_refresh_token :: token_string where
  "demo_refresh_token = Compact HS256 demo_refresh_claims ''k''"

definition demo_sms_config :: sms_Config where
  "demo_sms_config =
     \<lparr>Provider = ''volcengine'', AccessKey = ''ak'', SecretKey = ''sk'', SmsAccount = ''acct'',
      SignName = ''sign'', Templates = [''login'' \<mapsto> ''T1'']\<rparr>"

definition demo_v2_client :: VolcengineClient where
  "demo_v2_client = \<lparr>config = demo_sms_config, rdb_set = True, rand_Intn = (\<lambda>_. 482913)\<rparr>"

definition demo_v2_client_no_template :: VolcengineClient where
  "demo_v2_client_no_template =
     \<lparr>config = demo_sms_config\<lparr>Templates := Map.empty\<rparr>, rdb_set = True, rand_Intn = (\<lambda>_. 482913)\<rparr>"

text \<open>Worlds in which the code 482913 was issued at time 1000 for the demo phone.\<close>

definition demo_world_issued :: world where
  "demo_world_issued =
     demo_world\<lparr>redis := [''sms:code:login:13800000000'' \<mapsto> \<lparr>rval = ''482913'', rdeadline = Some 1300\<rparr>]\<rparr>"

definition demo_world_v2_issued :: world where
  "demo_world_v2_issued =
     demo_world\<lparr>redis := [''sms:logical:login:13800000000'' \<mapsto> \<lparr>rval = ''482913'', rdeadline = Some 1300\<rparr>]\<rparr>"

text \<open>
  A run of the arch3 client: a code is sent at time 1000, five wrong codes are tried over
  the next 40 seconds, and the right code is tried 20 seconds later.
\<close>

definition demo_world_two_codes :: world where
  "demo_world_two_codes = demo_world\<lparr>entropy := [482913, 271828]\<rparr>"

definition demo_world_sent :: world where
  "demo_world_sent = snd (Send demo_sms_config ''login'' ''13800000000'' demo_world_two_codes)"

definition demo_five_wrong :: "(int \<times> string) list" where
  "demo_five_wrong =
     [(0, ''000000''), (10, ''111111''), (10, ''222222''), (10, ''333333''), (10, ''444444'')]"

definition demo_world_locked :: world where
  "demo_world_locked =
     snd (Verify_each demo_sms_config ''login'' ''13800000000''
            (demo_five_wrong @ [(20, ''482913'')]) demo_world_sent)"

(*LEMMAS*)
section \<open>Basic facts about the environment\<close>

lemma is_digit_digit_char: "d < 10 \<Longrightarrow> is_digit (digit_char d)"
  by (simp add: is_digit_def digit_char_def)

lemma digit_val_digit_char: "d < 10 \<Longrightarrow> digit_val (digit_char d) = d"
  by (simp add: digit_val_def digit_char_def)

lemma dec_val_acc_snoc:
  "dec_val_acc a (xs @ [c]) =
     (case dec_val_acc a xs of
        None \<Rightarrow> None
      | Some v \<Rightarrow> if is_digit c then Some (v * 10 + digit_val c) else None)"
  by (induction xs arbitrary: a) auto

lemma dec_val_acc_nat_to_dec: "dec_val_acc 0 (nat_to_dec n) = Some n"
proof (induction n rule: nat_to_dec.induct)
  case (1 n)
  show ?case
  proof (cases "n < 10")
    case True
    then show ?thesis
      by (subst nat_to_dec.simps) (simp add: is_digit_digit_char digit_val_digit_char)
  next
    case False
    with 1 have "dec_val_acc 0 (nat_to_dec (n div 10)) = Some (n div 10)" by simp
    with False show ?thesis
      by (subst nat_to_dec.simps)
        (simp add: dec_val_acc_snoc is_digit_digit_char digit_val_digit_char)
  qed
qed

lemma nat_to_dec_inj: "nat_to_dec a = nat_to_dec b \<Longrightarrow> a = b"
  by (metis dec_val_acc_nat_to_dec option.inject)

lemma uuid_String_inj: "uuid_String a = uuid_String b \<Longrightarrow> a = b"
  by (simp add: uuid_String_def nat_to_dec_inj)

lemma uuid_String_small: "uuid_String 0 = ''uuid-0''" "uuid_String (Suc 0) = ''uuid-1''"
  by code_simp+

lemma log_event_fields [simp]:
  "clock (log_event e w) = clock w"
  "clock_nanos (log_event e w) = clock_nanos w"
  "redis (log_event e w) = redis w"
  "redis_faults (log_event e w) = redis_faults w"
  "db_users (log_event e w) = db_users w"
  "db_faults (log_event e w) = db_faults w"
  "uuid_ctr (log_event e w) = uuid_ctr w"
  "entropy (log_event e w) = entropy w"
  "gateway_faults (log_event e w) = gateway_faults w"
  "trace (log_event e w) = trace w @ [e]"
  by (simp_all add: log_event_def)

lemma redis_roundtrip_fields [simp]:
  "clock (redis_roundtrip cmds w) = clock w"
  "clock_nanos (redis_roundtrip cmds w) = clock_nanos w"
  "redis (redis_roundtrip cmds w) = redis w"
  "redis_faults (redis_roundtrip cmds w) = tl (redis_faults w)"
  "db_users (redis_roundtrip cmds w) = db_users w"
  "db_faults (redis_roundtrip cmds w) = db_faults w"
  "uuid_ctr (redis_roundtrip cmds w) = uuid_ctr w"
  "entropy (redis_roundtrip cmds w) = entropy w"
  "gateway_faults (redis_roundtrip cmds w) = gateway_faults w"
  "trace (redis_roundtrip cmds w) = trace w @ [EvRedis cmds]"
  by (simp_all add: redis_roundtrip_def)

lemma store_set_fields [simp]:
  "clock (store_set k v ttl w) = clock w"
  "clock_nanos (store_set k v ttl w) = clock_nanos w"
  "redis_faults (store_set k v ttl w) = redis_faults w"
  "db_users (store_set k v ttl w) = db_users w"
  "db_faults (store_set k v ttl w) = db_faults w"
  "uuid_ctr (store_set k v ttl w) = uuid_ctr w"
  "entropy (store_set k v ttl w) = entropy w"
  "gateway_faults (store_set k v ttl w) = gateway_faults w"
  "trace (store_set k v ttl w) = trace w"
  by (simp_all add: store_set_def)

lemma store_del_fields [simp]:
  "clock (store_del k w) = clock w"
  "clock_nanos (store_del k w) = clock_nanos w"
  "redis_faults (store_del k w) = redis_faults w"
  "db_users (store_del k w) = db_users w"
  "db_faults (store_del k w) = db_faults w"
  "uuid_ctr (store_del k w) = uuid_ctr w"
  "entropy (store_del k w) = entropy w"
  "gateway_faults (store_del k w) = gateway_faults w"
  "trace (store_del k w) = trace w"
  by (simp_all add: store_del_def)

lemma live_entry_cong:
  "redis w' = redis w \<Longrightarrow> clock w' = clock w \<Longrightarrow> live_entry w' k = live_entry w k"
  by (simp add: live_entry_def cong: option.case_cong)

lemma redis_lookup_cong:
  "redis w' = redis w \<Longrightarrow> clock w' = clock w \<Longrightarrow> redis_lookup w' k = redis_lookup w k"
  unfolding redis_lookup_def by (rule arg_cong [where f = "map_option rval"], rule live_entry_cong)

lemma redis_roundtrip_lookup [simp]: "redis_lookup (redis_roundtrip cmds w) k = redis_lookup w k"
  by (rule redis_lookup_cong) simp_all

lemma redis_lookup_store_set_same: "redis_lookup (store_set k v ttl w) k = Some v"
  by (simp add: redis_lookup_def live_entry_def store_set_def)

section \<open>Facts about the token manager and the service\<close>

lemma GenerateTokenPair_eq:
  "GenerateTokenPair m userID w =
     (Inr \<lparr>AccessToken = Compact HS256
              \<lparr>UserID = userID, TokenType = TokenTypeAccess, ID = uuid_String (uuid_ctr w),
               IssuedAt = Some (clock w), ExpiresAt = Some (clock w + accessExpire m)\<rparr> (secret m),
           RefreshToken = Compact HS256
              \<lparr>UserID = userID, TokenType = TokenTypeRefresh, ID = uuid_String (Suc (uuid_ctr w)),
               IssuedAt = Some (clock w), ExpiresAt = Some (clock w + refreshExpire m)\<rparr> (secret m)\<rparr>,
      w\<lparr>uuid_ctr := Suc (Suc (uuid_ctr w)),
        trace := trace w @ [EvUuidNew (uuid_String (uuid_ctr w)), EvUuidNew (uuid_String (Suc (uuid_ctr w)))]\<rparr>)"
  by (simp add: GenerateTokenPair_def uuid_New_def SignedString_def is_HMAC_def log_event_def Let_def)

lemma IsTokenBlacklisted_eq:
  "IsTokenBlacklisted m jti w =
     ((if next_fault (redis_faults w) then Inl RedisUnavailable
       else Inr (redis_lookup w (blacklist_key jti) = Some ''1'')),
      redis_roundtrip [GET (blacklist_key jti)] w)"
  by (simp add: IsTokenBlacklisted_def rdb_Get_def Let_def split: option.split)

lemma AddTokenToBlacklist_eq:
  "AddTokenToBlacklist m jti expiration w =
     (if next_fault (redis_faults w)
      then (Some RedisUnavailable, redis_roundtrip [SET (blacklist_key jti) ''1'' expiration] w)
      else (None, store_set (blacklist_key jti) ''1'' expiration
                    (redis_roundtrip [SET (blacklist_key jti) ''1'' expiration] w)))"
  by (simp add: AddTokenToBlacklist_def rdb_Set_def Let_def)

lemma RevokeRefreshToken_eq:
  "RevokeRefreshToken m jti w =
     (if next_fault (redis_faults w)
      then (Some RedisUnavailable, redis_roundtrip [SET (blacklist_key jti) ''1'' (refreshExpire m)] w)
      else (None, store_set (blacklist_key jti) ''1'' (refreshExpire m)
                    (redis_roundtrip [SET (blacklist_key jti) ''1'' (refreshExpire m)] w)))"
  by (simp add: RevokeRefreshToken_def AddTokenToBlacklist_eq)

lemma Repository_FindByUserID_world:
  "snd (Repository_FindByUserID userID w) =
     log_event (EvFindByUserID userID) (w\<lparr>db_faults := tl (db_faults w)\<rparr>)"
  by (simp add: Repository_FindByUserID_def DAO_FindByUserID_def Let_def split: sum.split option.split)

lemma Repository_FindByUserID_result:
  "fst (Repository_FindByUserID userID w) =
     (if next_fault (db_faults w) then Inl ErrDatabase
      else (case find (\<lambda>u. usr_UserID u = userID) (db_users w) of
              None \<Rightarrow> Inl ErrUserNotFound
            | Some u \<Rightarrow> Inr u))"
  by (simp add: Repository_FindByUserID_def DAO_FindByUserID_def Let_def split: option.split)

lemma ParseToken_later:
  "ParseToken m tok ty w = Inr c \<Longrightarrow>
     ParseToken m tok ty w' = Inr c \<or> ParseToken m tok ty w' = Inl (ParseFailed ErrTokenExpired)"
  by (auto simp add: ParseToken_def ParseWithClaims_def
        split: token_string.splits sum.splits option.splits if_splits)

lemma demo_parse:
  "ParseToken (NewManager demo_config) demo_refresh_token TokenTypeRefresh (w\<lparr>clock := 4600\<rparr>) =
     Inr demo_refresh_claims"
  by (simp add: ParseToken_def ParseWithClaims_def keyFunc_def is_HMAC_def NewManager_def
        demo_config_def demo_refresh_token_def demo_refresh_claims_def TokenTypeRefresh_def)

lemma demo_claims_fields:
  "ID demo_refresh_claims = ''uuid-1''" "UserID demo_refresh_claims = ''u1''"
  "ExpiresAt demo_refresh_claims = Some 605800"
  by (simp_all add: demo_refresh_claims_def)

lemma ParseToken_Compact:
  "ParseToken m (Compact alg c k) ty w = Inr claims \<Longrightarrow> claims = c"
  by (auto simp add: ParseToken_def ParseWithClaims_def split: sum.splits if_splits option.splits)

lemma NewManager_positive:
  "0 < accessExpire (NewManager cfg)" "0 < refreshExpire (NewManager cfg)"
  by (simp_all add: NewManager_def DefaultAccessTokenDuration_def DefaultRefreshTokenDuration_def)

lemma redis_TTL_cong:
  assumes r: "redis w' = redis w" and c: "clock w' = clock w"
  shows "redis_TTL w' k = redis_TTL w k"
proof -
  have "live_entry w' k = live_entry w k"
    using r c by (rule live_entry_cong)
  then show ?thesis
    by (simp add: redis_TTL_def c cong: option.case_cong)
qed

lemma RevokeRefreshToken_TTL:
  "RevokeRefreshToken m jti w = (None, w') \<Longrightarrow> 0 < refreshExpire m \<Longrightarrow>
     redis_TTL w' (blacklist_key jti) = Some (refreshExpire m)"
  by (auto simp add: RevokeRefreshToken_eq redis_TTL_def live_entry_def store_set_def split: if_splits)

text \<open>A successful rotation went through the parse, the blacklist write and the minting.\<close>

lemma service_RefreshToken_success:
  assumes ok: "service_RefreshToken m tok w = (Inr pair, w')"
  shows "\<exists>claims w2 w3.
           ParseToken m tok TokenTypeRefresh w = Inr claims
           \<and> RevokeRefreshToken m (ID claims) w2 = (None, w3)
           \<and> GenerateTokenPair m (UserID claims) w3 = (Inr pair, w')"
proof (cases "ParseToken m tok TokenTypeRefresh w")
  case (Inl e)
  with ok show ?thesis by (simp add: service_RefreshToken_def)
next
  case (Inr claims)
  obtain r1 w1 where c: "IsTokenBlacklisted m (ID claims) w = (r1, w1)"
    by (cases "IsTokenBlacklisted m (ID claims) w")
  obtain r2 w2 where s: "Repository_FindByUserID (UserID claims) w1 = (r2, w2)"
    by (cases "Repository_FindByUserID (UserID claims) w1")
  obtain r3 w3 where r: "RevokeRefreshToken m (ID claims) w2 = (r3, w3)"
    by (cases "RevokeRefreshToken m (ID claims) w2")
  obtain r4 w4 where g: "GenerateTokenPair m (UserID claims) w3 = (r4, w4)"
    by (cases "GenerateTokenPair m (UserID claims) w3")
  from ok Inr c s r g have "r3 = None \<and> r4 = Inr pair \<and> w4 = w'"
    by (simp add: service_RefreshToken_def split: sum.splits if_splits option.splits)
  with Inr r g show ?thesis by blast
qed

lemma demo_minted:
  "GenerateTokenPair (NewManager demo_config) ''u1'' demo_world =
     (Inr \<lparr>AccessToken = Compact HS256
              \<lparr>UserID = ''u1'', TokenType = ''access'', ID = ''uuid-0'',
               IssuedAt = Some 1000, ExpiresAt = Some 1900\<rparr> ''k'',
           RefreshToken = demo_refresh_token\<rparr>,
      snd (GenerateTokenPair (NewManager demo_config) ''u1'' demo_world))"
  by (simp add: GenerateTokenPair_eq uuid_String_small demo_world_def NewManager_def demo_config_def
        demo_refresh_token_def demo_refresh_claims_def TokenTypeAccess_def TokenTypeRefresh_def
        DefaultAccessTokenDuration_def DefaultRefreshTokenDuration_def)

lemma service_RefreshToken_rotates:
  assumes valid: "ParseToken m refreshToken TokenTypeRefresh w = Inr claims"
      and unrevoked: "redis_lookup w (blacklist_key (ID claims)) \<noteq> Some ''1''"
      and subject: "find (\<lambda>u. usr_UserID u = UserID claims) (db_users w) = Some u"
      and cache_up: "redis_faults w = []"
      and db_up: "db_faults w = []"
  shows "service_RefreshToken m refreshToken w =
           (Inr \<lparr>AccessToken = Compact HS256
                    \<lparr>UserID = UserID claims, TokenType = TokenTypeAccess, ID = uuid_String (uuid_ctr w),
                     IssuedAt = Some (clock w), ExpiresAt = Some (clock w + accessExpire m)\<rparr> (secret m),
                 RefreshToken = Compact HS256
                    \<lparr>UserID = UserID claims, TokenType = TokenTypeRefresh, ID = uuid_String (Suc (uuid_ctr w)),
                     IssuedAt = Some (clock w), ExpiresAt = Some (clock w + refreshExpire m)\<rparr> (secret m)\<rparr>,
            snd (GenerateTokenPair m (UserID claims) (rotated_world m claims w)))"
proof -
  let ?k = "blacklist_key (ID claims)"
  let ?w1 = "redis_roundtrip [GET ?k] w"
  let ?w2 = "log_event (EvFindByUserID (UserID claims)) (?w1\<lparr>db_faults := tl (db_faults ?w1)\<rparr>)"
  have find2: "Repository_FindByUserID (UserID claims) ?w1 = (Inr u, ?w2)"
    using subject db_up
    by (simp add: prod_eq_iff Repository_FindByUserID_result Repository_FindByUserID_world next_fault_def)
  show ?thesis
    using valid unrevoked cache_up find2
    by (simp add: service_RefreshToken_def IsTokenBlacklisted_eq RevokeRefreshToken_eq
          GenerateTokenPair_eq next_fault_def rotated_world_def)
qed

lemma demo_world_facts:
  "redis_lookup (demo_world\<lparr>clock := 4600\<rparr>) (blacklist_key (ID demo_refresh_claims)) \<noteq> Some ''1''"
  "find (\<lambda>u. usr_UserID u = UserID demo_refresh_claims) (db_users (demo_world\<lparr>clock := 4600\<rparr>)) = Some demo_user"
  "redis_faults (demo_world\<lparr>clock := 4600\<rparr>) = []"
  "db_faults (demo_world\<lparr>clock := 4600\<rparr>) = []"
  by (simp_all add: redis_lookup_def live_entry_def demo_world_def demo_user_def demo_claims_fields)

lemma demo_rotation:
  "fst (service_RefreshToken (NewManager demo_config) demo_refresh_token (demo_world\<lparr>clock := 4600\<rparr>)) =
     Inr \<lparr>AccessToken = Compact HS256
              \<lparr>UserID = ''u1'', TokenType = ''access'', ID = ''uuid-0'',
               IssuedAt = Some 4600, ExpiresAt = Some 5500\<rparr> ''k'',
          RefreshToken = Compact HS256
              \<lparr>UserID = ''u1'', TokenType = ''refresh'', ID = ''uuid-1'',
               IssuedAt = Some 4600, ExpiresAt = Some 609400\<rparr> ''k''\<rparr>"
  unfolding service_RefreshToken_rotates [OF demo_parse demo_world_facts]
  by (simp add: demo_claims_fields demo_world_def uuid_String_small
        NewManager_def demo_config_def TokenTypeAccess_def TokenTypeRefresh_def
        DefaultAccessTokenDuration_def DefaultRefreshTokenDuration_def)

lemma demo_rotation_TTL:
  "redis_TTL (snd (service_RefreshToken (NewManager demo_config) demo_refresh_token (demo_world\<lparr>clock := 4600\<rparr>)))
      (blacklist_key ''uuid-1'') = Some 604800"
  unfolding service_RefreshToken_rotates [OF demo_parse demo_world_facts]
  by (simp add: GenerateTokenPair_eq rotated_world_def demo_claims_fields redis_TTL_def
        live_entry_def store_set_def demo_world_def
        NewManager_def demo_config_def DefaultRefreshTokenDuration_def)

section \<open>Facts about the SMS clients\<close>

lemma digit_char_simps:
  "digit_char 0 = CHR ''0''" "digit_char 1 = CHR ''1''" "digit_char 2 = CHR ''2''"
  "digit_char 3 = CHR ''3''" "digit_char 4 = CHR ''4''" "digit_char 5 = CHR ''5''"
  "digit_char 6 = CHR ''6''" "digit_char 7 = CHR ''7''" "digit_char 8 = CHR ''8''"
  "digit_char 9 = CHR ''9''" "digit_char (Suc 0) = CHR ''1''"
  by code_simp+

lemma Sprintf_06d_demo: "Sprintf_06d 482913 = ''482913''"
  by (simp add: Sprintf_06d_def nat_to_dec.simps digit_char_simps)

lemma rdb_Get_eq:
  "rdb_Get k w =
     ((if next_fault (redis_faults w) then Inl RedisUnavailable
       else (case redis_lookup w k of None \<Rightarrow> Inl RedisNil | Some v \<Rightarrow> Inr v)),
      redis_roundtrip [GET k] w)"
  by (simp add: rdb_Get_def Let_def split: option.split)

lemma rdb_Get_Int_eq:
  "rdb_Get_Int k w =
     ((if next_fault (redis_faults w) then Inl RedisUnavailable
       else (case redis_lookup w k of
               None \<Rightarrow> Inl RedisNil
             | Some v \<Rightarrow> (case Atoi v of None \<Rightarrow> Inl RedisNotInteger | Some n \<Rightarrow> Inr n))),
      redis_roundtrip [GET k] w)"
  by (simp add: rdb_Get_Int_def rdb_Get_eq split: option.split)

lemma rdb_Set_eq:
  "rdb_Set k v ttl w =
     (if next_fault (redis_faults w) then (Some RedisUnavailable, redis_roundtrip [SET k v ttl] w)
      else (None, store_set k v ttl (redis_roundtrip [SET k v ttl] w)))"
  by (simp add: rdb_Set_def Let_def)

lemma rdb_Del_eq:
  "rdb_Del k w =
     (if next_fault (redis_faults w) then (Some RedisUnavailable, redis_roundtrip [DEL k] w)
      else (None, store_del k (redis_roundtrip [DEL k] w)))"
  by (simp add: rdb_Del_def Let_def)

lemma keys_demo:
  "getRedisKey v2_logicalKeyFormat ''13800000000'' ''login'' = ''sms:logical:login:13800000000''"
  "getRedisKey v2_minuteKeyFormat ''13800000000'' ''login'' = ''sms:minute:login%!(EXTRA string=13800000000)''"
  "getRedisKey v2_dayKeyFormat ''13800000000'' ''login'' = ''sms:day:login%!(EXTRA string=13800000000)''"
  by (simp_all add: getRedisKey_def v2_logicalKeyFormat_def v2_minuteKeyFormat_def v2_dayKeyFormat_def)

lemma v2_Verify_result:
  assumes "code \<noteq> ''777777''" "rdb_set c" "\<not> next_fault (redis_faults w)"
  shows "fst (v2_Verify c smsType phone code w) =
           (case redis_lookup w (getRedisKey v2_logicalKeyFormat phone smsType) of
              None \<Rightarrow> Some (Errorf ''code expired or does not exist'')
            | Some storedCode \<Rightarrow>
                if storedCode \<noteq> code then Some (Errorf ''code is not correct'') else None)"
  using assms by (simp add: v2_Verify_def rdb_Get_eq split: option.split)

text \<open>After the limits pass and the code is stored, archv2 has the code in the cache.\<close>

lemma v2_Send_stores_first:
  assumes "rdb_set c" "redis_faults w = []"
      and "redis_lookup w (getRedisKey v2_minuteKeyFormat phone smsType) = None"
      and "redis_lookup w (getRedisKey v2_dayKeyFormat phone smsType) = None"
      and "Templates (config c) smsType = None \<or> next_fault (gateway_faults w)"
  shows "fst (v2_Send c smsType phone w) =
           (case Templates (config c) smsType of
              None \<Rightarrow> Some (Errorf (''unsupported sms type: '' @ smsType))
            | Some _ \<Rightarrow> Some (Errorf ''sending the sms failed''))"
    and "redis_lookup (snd (v2_Send c smsType phone w)) (getRedisKey v2_logicalKeyFormat phone smsType) =
           Some (v2_generateCode c w)"
    and "redis_faults (snd (v2_Send c smsType phone w)) = []"
  using assms
  by (auto simp add: v2_Send_def v2_checkSendLimit_def v2_storeCode_def rdb_Get_Int_eq rdb_Set_eq
        sendSMS_def next_fault_def Let_def v2_generateCode_def UnixNano_def
        redis_lookup_store_set_same redis_lookup_cong [of _ "store_set _ _ _ _"]
        split: option.split)

lemma arch3_keys:
  "codeKey smsType phone = ''sms:code:'' @ smsType @ '':'' @ phone"
  "minuteKey smsType phone = ''sms:minute:'' @ smsType @ '':'' @ phone"
  "dayKey smsType phone = ''sms:day:'' @ smsType @ '':'' @ phone"
  "verifyFailKey smsType phone = ''sms:verify_fail:'' @ smsType @ '':'' @ phone"
  by (simp_all add: codeKey_def minuteKey_def dayKey_def verifyFailKey_def codeKeyFormat_def
        minuteKeyFormat_def dayKeyFormat_def verifyFailKeyFormat_def)

lemma arch3_keys_distinct:
  "verifyFailKey t p \<noteq> codeKey t' p'" "minuteKey t p \<noteq> codeKey t' p'" "dayKey t p \<noteq> codeKey t' p'"
  "minuteKey t p \<noteq> verifyFailKey t' p'" "dayKey t p \<noteq> verifyFailKey t' p'"
  "dayKey t p \<noteq> minuteKey t' p'"
  by (simp_all add: arch3_keys)

lemma GetVerifyFailCount_eq:
  "GetVerifyFailCount smsType phone w =
     ((if next_fault (redis_faults w) then Inl RedisUnavailable
       else (case redis_lookup w (verifyFailKey smsType phone) of
               None \<Rightarrow> Inr 0
             | Some v \<Rightarrow> (case Atoi v of None \<Rightarrow> Inl RedisNotInteger | Some n \<Rightarrow> Inr n))),
      redis_roundtrip [GET (verifyFailKey smsType phone)] w)"
  by (simp add: GetVerifyFailCount_def rdb_Get_Int_eq split: option.split)

lemma GetCode_eq:
  "GetCode smsType phone w =
     ((if next_fault (redis_faults w) then Inl RedisUnavailable
       else (case redis_lookup w (codeKey smsType phone) of
               None \<Rightarrow> Inl ErrSMSCodeInvalid
             | Some v \<Rightarrow> Inr v)),
      redis_roundtrip [GET (codeKey smsType phone)] w)"
  by (simp add: GetCode_def rdb_Get_eq split: option.split)

text \<open>What \<open>Verify\<close> returns, in terms of the world it starts in.\<close>

lemma Verify_result:
  "fst (Verify cfg smsType phone code w) =
     (case fst (GetVerifyFailCount smsType phone w) of
        Inl e \<Rightarrow> Some e
      | Inr failCount \<Rightarrow>
          if maxVerifyFails \<le> failCount then Some ErrSMSVerifyTooMany
          else if next_fault (tl (redis_faults w)) then Some ErrSMSCodeInvalid
          else if redis_lookup w (codeKey smsType phone) = Some code then None
          else Some ErrSMSCodeInvalid)"
  by (simp add: Verify_def GetVerifyFailCount_eq GetCode_eq split: option.split)

lemma demo_v2_facts:
  "rdb_set demo_v2_client" "rdb_set demo_v2_client_no_template"
  "Templates (config demo_v2_client_no_template) ''login'' = None"
  "Templates (config demo_v2_client) ''login'' = Some ''T1''"
  "v2_generateCode demo_v2_client w = ''482913''"
  "v2_generateCode demo_v2_client_no_template w = ''482913''"
  by (simp_all add: demo_v2_client_def demo_v2_client_no_template_def demo_sms_config_def
        v2_generateCode_def Sprintf_06d_demo)

lemma demo_world_cache:
  "redis_faults demo_world = []" "redis_lookup demo_world k = None"
  "redis_faults (demo_world\<lparr>gateway_faults := fs\<rparr>) = []"
  "redis_lookup (demo_world\<lparr>gateway_faults := fs\<rparr>) k = None"
  by (simp_all add: demo_world_def redis_lookup_def live_entry_def)

lemma advance_fields [simp]:
  "clock (advance d w) = clock w + d"
  "redis (advance d w) = redis w"
  "redis_faults (advance d w) = redis_faults w"
  "trace (advance d w) = trace w"
  by (simp_all add: advance_def)

lemma live_entry_absent: "redis w k = None \<Longrightarrow> live_entry w k = None"
  by (simp add: live_entry_def)

lemma redis_lookup_absent: "redis w k = None \<Longrightarrow> redis_lookup w k = None"
  by (simp add: redis_lookup_def live_entry_absent)

lemma DeleteCode_eq:
  "DeleteCode smsType phone w =
     (if next_fault (redis_faults w)
      then (Some RedisUnavailable, redis_roundtrip [DEL (codeKey smsType phone)] w)
      else (None, store_del (codeKey smsType phone) (redis_roundtrip [DEL (codeKey smsType phone)] w)))"
  by (simp add: DeleteCode_def rdb_Del_eq)

lemma StoreCode_eq:
  "StoreCode smsType phone code ttl w =
     (if next_fault (redis_faults w)
      then (Some RedisUnavailable, redis_roundtrip [SET (codeKey smsType phone) code ttl] w)
      else (None, store_set (codeKey smsType phone) code ttl
                    (redis_roundtrip [SET (codeKey smsType phone) code ttl] w)))"
  by (simp add: StoreCode_def rdb_Set_eq)

lemma sendSMS_fields:
  "redis (snd (sendSMS cfg phone templateID code w)) = redis w"
  "clock (snd (sendSMS cfg phone templateID code w)) = clock w"
  "redis_faults (snd (sendSMS cfg phone templateID code w)) = redis_faults w"
  by (simp_all add: sendSMS_def Let_def)

lemma Verify_never_succeeds_without_code:
  assumes "redis_lookup w (codeKey smsType phone) = None"
  shows "fst (Verify cfg smsType phone code w) \<noteq> None"
  using assms by (simp add: Verify_result split: sum.split)

lemma GetSendCount_eq_none:
  assumes "redis_faults w = []" "redis_lookup w (minuteKey t p) = None" "redis_lookup w (dayKey t p) = None"
  shows "GetSendCount t p w =
           (Inr (0, 0), redis_roundtrip [GET (dayKey t p)] (redis_roundtrip [GET (minuteKey t p)] w))"
  using assms by (simp add: GetSendCount_def rdb_Get_Int_eq next_fault_def)

lemma checkSendLimit_pass:
  assumes "redis_faults w = []" "redis_lookup w (minuteKey t p) = None" "redis_lookup w (dayKey t p) = None"
  shows "checkSendLimit t p w =
           (None, redis_roundtrip [GET (dayKey t p)] (redis_roundtrip [GET (minuteKey t p)] w))"
  by (simp add: checkSendLimit_def GetSendCount_eq_none [OF assms] maxPerMin_def maxPerDay_def)

section \<open>Facts about the fail counter and the verification attempts\<close>

lemma nat_to_dec_digits: "c \<in> set (nat_to_dec n) \<Longrightarrow> is_digit c"
proof (induction n arbitrary: c rule: nat_to_dec.induct)
  case (1 n)
  show ?case
  proof (cases "n < 10")
    case True
    with "1.prems" show ?thesis
      by (subst (asm) nat_to_dec.simps) (simp add: is_digit_digit_char)
  next
    case False
    with "1.prems" have "c \<in> set (nat_to_dec (n div 10)) \<or> c = digit_char (n mod 10)"
      by (subst (asm) nat_to_dec.simps) auto
    with False "1.IH" show ?thesis
      by (auto simp add: is_digit_digit_char)
  qed
qed

lemma nat_to_dec_nonempty: "nat_to_dec n \<noteq> []"
  by (subst nat_to_dec.simps) simp

lemma Atoi_Itoa:
  assumes "0 \<le> n" "n < 2 ^ 63"
  shows "Atoi (Itoa n) = Some n"
proof -
  obtain c cs where s: "nat_to_dec (nat n) = c # cs"
    using nat_to_dec_nonempty [of "nat n"] by (cases "nat_to_dec (nat n)") auto
  have "is_digit c"
    using nat_to_dec_digits [of c "nat n"] s by simp
  then have c: "c \<noteq> CHR ''-''" "c \<noteq> CHR ''+''"
    by (auto simp add: is_digit_def)
  have v: "dec_val (c # cs) = Some (nat n)"
    using dec_val_acc_nat_to_dec [of "nat n"] by (simp add: dec_val_def s)
  show ?thesis
    using assms c v by (simp add: Atoi_def Itoa_def s)
qed

lemma Itoa_1: "Itoa 1 = ''1''"
  by (simp add: Itoa_def nat_to_dec.simps digit_char_simps)

lemma pipe_Exec_up:
  "redis_faults w = [] \<Longrightarrow> pipe_Exec cmds w = run_cmds cmds (redis_roundtrip cmds w)"
  by (simp add: pipe_Exec_def next_fault_def)

lemma live_entry_upd_same:
  "live_entry (w\<lparr>redis := (redis w)(k \<mapsto> e)\<rparr>) k =
     (case rdeadline e of None \<Rightarrow> Some e | Some d \<Rightarrow> if clock w < d then Some e else None)"
  by (simp add: live_entry_def cong: option.case_cong)

lemma rentry_update_all: "(e :: rentry)\<lparr>rval := a, rdeadline := b\<rparr> = \<lparr>rval = a, rdeadline = b\<rparr>"
  by (cases e) simp

lemma live_entry_SomeD:
  "live_entry w k = Some e \<Longrightarrow>
     redis w k = Some e \<and> (case rdeadline e of None \<Rightarrow> True | Some d \<Rightarrow> clock w < d)"
  by (auto simp add: live_entry_def split: option.splits if_splits)

lemma incr_then_expire:
  assumes cnt: "fail_count_is w t p n" and small: "n < 2 ^ 63 - 2" and pos: "0 < ttl"
  shows "run_cmds [INCR (verifyFailKey t p), EXPIRE (verifyFailKey t p) ttl] w =
           (None, w\<lparr>redis := (redis w)(verifyFailKey t p \<mapsto>
                       \<lparr>rval = Itoa (n + 1), rdeadline = Some (clock w + ttl)\<rparr>)\<rparr>)"
proof (cases "live_entry w (verifyFailKey t p)")
  case None
  with cnt have n: "n = 0"
    by (simp add: fail_count_is_def)
  have 1: "store_incr (verifyFailKey t p) w =
      (None, w\<lparr>redis := (redis w)(verifyFailKey t p \<mapsto> \<lparr>rval = ''1'', rdeadline = None\<rparr>)\<rparr>)"
    by (simp add: store_incr_def None)
  show ?thesis
    using pos by (simp add: 1 store_expire_def live_entry_upd_same n Itoa_1)
next
  case (Some e)
  with cnt have e: "rval e = Itoa n" "0 < n" "n < 2 ^ 63 - 1"
    by (simp_all add: fail_count_is_def)
  have a: "Atoi (Itoa n) = Some n"
    using e by (intro Atoi_Itoa) simp_all
  have 1: "store_incr (verifyFailKey t p) w =
      (None, w\<lparr>redis := (redis w)(verifyFailKey t p \<mapsto> e\<lparr>rval := Itoa (n + 1)\<rparr>)\<rparr>)"
    using e small by (simp add: store_incr_def Some a)
  have live: "case rdeadline e of None \<Rightarrow> True | Some d \<Rightarrow> clock w < d"
    using live_entry_SomeD [OF Some] by simp
  have 2: "live_entry (w\<lparr>redis := (redis w)(verifyFailKey t p \<mapsto> e\<lparr>rval := Itoa (n + 1)\<rparr>)\<rparr>) (verifyFailKey t p) =
      Some (e\<lparr>rval := Itoa (n + 1)\<rparr>)"
    using live by (simp add: live_entry_upd_same split: option.splits)
  show ?thesis
    using pos by (simp add: 1 store_expire_def 2 rentry_update_all)
qed

lemma fail_count_nonneg: "fail_count_is w t p n \<Longrightarrow> 0 \<le> n \<and> n < 2 ^ 63 - 1"
  by (auto simp add: fail_count_is_def split: option.splits)

lemma fail_count_is_cong:
  "live_entry w' (verifyFailKey t p) = live_entry w (verifyFailKey t p) \<Longrightarrow>
     fail_count_is w' t p n = fail_count_is w t p n"
  by (simp add: fail_count_is_def)

lemma live_entry_key_cong:
  "redis w' k = redis w k \<Longrightarrow> clock w' = clock w \<Longrightarrow> live_entry w' k = live_entry w k"
  by (simp add: live_entry_def cong: option.case_cong)

lemma redis_lookup_key_cong:
  "redis w' k = redis w k \<Longrightarrow> clock w' = clock w \<Longrightarrow> redis_lookup w' k = redis_lookup w k"
  unfolding redis_lookup_def by (rule arg_cong [where f = "map_option rval"], rule live_entry_key_cong)

lemma GetVerifyFailCount_counted:
  assumes "\<not> next_fault (redis_faults w)" "fail_count_is w t p n"
  shows "fst (GetVerifyFailCount t p w) = Inr n"
proof (cases "live_entry w (verifyFailKey t p)")
  case None
  with assms show ?thesis
    by (simp add: GetVerifyFailCount_eq redis_lookup_def fail_count_is_def)
next
  case (Some e)
  with assms have "rval e = Itoa n" "Atoi (Itoa n) = Some n"
    by (simp_all add: fail_count_is_def Atoi_Itoa)
  with assms Some show ?thesis
    by (simp add: GetVerifyFailCount_eq redis_lookup_def)
qed

lemma Verify_locked:
  assumes "fst (GetVerifyFailCount t p w) = Inr n" "maxVerifyFails \<le> n"
  shows "Verify cfg t p code w = (Some ErrSMSVerifyTooMany, redis_roundtrip [GET (verifyFailKey t p)] w)"
  using assms by (simp add: Verify_def GetVerifyFailCount_eq split: if_splits)

lemma Verify_wrong_world:
  assumes up: "redis_faults w = []" and cnt: "fail_count_is w t p n" and lt: "n < maxVerifyFails"
      and st: "redis_lookup w (codeKey t p) = Some s" and ne: "code \<noteq> s"
  shows "Verify cfg t p code w =
           (Some ErrSMSCodeInvalid,
            (redis_roundtrip [INCR (verifyFailKey t p), EXPIRE (verifyFailKey t p) verifyFailTTL]
               (redis_roundtrip [GET (codeKey t p)] (redis_roundtrip [GET (verifyFailKey t p)] w)))
            \<lparr>redis := (redis w)(verifyFailKey t p \<mapsto>
                         \<lparr>rval = Itoa (n + 1), rdeadline = Some (clock w + verifyFailTTL)\<rparr>)\<rparr>)"
proof -
  let ?fk = "verifyFailKey t p" and ?ck = "codeKey t p"
  let ?Wa = "redis_roundtrip [GET ?ck] (redis_roundtrip [GET ?fk] w)"
  let ?Wb = "redis_roundtrip [INCR ?fk, EXPIRE ?fk verifyFailTTL] ?Wa"
  have c: "fst (GetVerifyFailCount t p w) = Inr n"
    using up cnt by (intro GetVerifyFailCount_counted) (simp_all add: next_fault_def)
  have c': "GetVerifyFailCount t p w = (Inr n, redis_roundtrip [GET ?fk] w)"
    using c by (simp add: GetVerifyFailCount_eq)
  have g: "GetCode t p (redis_roundtrip [GET ?fk] w) = (Inr s, ?Wa)"
    using up st by (simp add: GetCode_eq next_fault_def)
  have v: "Verify cfg t p code w = (Some ErrSMSCodeInvalid, snd (IncrVerifyFailCount t p ?Wa))"
    using lt ne by (simp add: Verify_def c' g)
  have upW: "redis_faults ?Wa = []"
    using up by simp
  have "live_entry ?Wb ?fk = live_entry w ?fk"
    by (rule live_entry_key_cong) simp_all
  then have cnt0: "fail_count_is ?Wb t p n"
    using cnt fail_count_is_cong by blast
  have small: "n < 2 ^ 63 - 2"
    using lt by (simp add: maxVerifyFails_def)
  have ttl: "0 < verifyFailTTL"
    by (simp add: verifyFailTTL_def)
  have i: "IncrVerifyFailCount t p ?Wa =
             (None, ?Wb\<lparr>redis := (redis ?Wb)(?fk \<mapsto> \<lparr>rval = Itoa (n + 1), rdeadline = Some (clock ?Wb + verifyFailTTL)\<rparr>)\<rparr>)"
    unfolding IncrVerifyFailCount_def pipe_Exec_up [OF upW]
    by (rule incr_then_expire [OF cnt0 small ttl])
  show ?thesis
    unfolding v i by simp
qed

lemma Verify_wrong_step:
  assumes up: "redis_faults w = []" and cnt: "fail_count_is w t p n" and lt: "n < maxVerifyFails"
      and st: "redis_lookup w (codeKey t p) = Some s" and ne: "code \<noteq> s"
  shows "fst (Verify cfg t p code w) = Some ErrSMSCodeInvalid"
    and "redis_faults (snd (Verify cfg t p code w)) = []"
    and "clock (snd (Verify cfg t p code w)) = clock w"
    and "gateway_faults (snd (Verify cfg t p code w)) = gateway_faults w"
    and "entropy (snd (Verify cfg t p code w)) = entropy w"
    and "redis (snd (Verify cfg t p code w)) =
           (redis w)(verifyFailKey t p \<mapsto> \<lparr>rval = Itoa (n + 1), rdeadline = Some (clock w + verifyFailTTL)\<rparr>)"
  using up by (simp_all add: Verify_wrong_world [OF assms])

lemma fail_count_is_fresh:
  assumes "redis w (verifyFailKey t p) = Some \<lparr>rval = Itoa n, rdeadline = Some D\<rparr>"
      and "clock w < D" "0 < n" "n < 2 ^ 63 - 1"
  shows "fail_count_is w t p n"
  using assms by (simp add: fail_count_is_def live_entry_def)

lemma Verify_wrong_count:
  assumes up: "redis_faults w = []" and cnt: "fail_count_is w t p n" and lt: "n < maxVerifyFails"
      and st: "redis_lookup w (codeKey t p) = Some s" and ne: "code \<noteq> s"
  shows "fail_count_is (snd (Verify cfg t p code w)) t p (n + 1)"
    and "redis_lookup (snd (Verify cfg t p code w)) (codeKey t p) = Some s"
proof -
  note step = Verify_wrong_step [OF assms, of cfg]
  have n: "0 \<le> n" "n < 2 ^ 63 - 1"
    using fail_count_nonneg [OF cnt] by simp_all
  show "fail_count_is (snd (Verify cfg t p code w)) t p (n + 1)"
  proof (rule fail_count_is_fresh)
    show "redis (snd (Verify cfg t p code w)) (verifyFailKey t p) =
            Some \<lparr>rval = Itoa (n + 1), rdeadline = Some (clock w + verifyFailTTL)\<rparr>"
      by (simp add: step(6))
    show "clock (snd (Verify cfg t p code w)) < clock w + verifyFailTTL"
      by (simp add: step(3) verifyFailTTL_def)
    show "0 < n + 1" using n by simp
    show "n + 1 < 2 ^ 63 - 1" using lt by (simp add: maxVerifyFails_def)
  qed
  have "redis_lookup (snd (Verify cfg t p code w)) (codeKey t p) = redis_lookup w (codeKey t p)"
    by (rule redis_lookup_key_cong) (simp_all add: step arch3_keys_distinct [THEN not_sym])
  then show "redis_lookup (snd (Verify cfg t p code w)) (codeKey t p) = Some s"
    by (simp add: st)
qed

lemma live_entry_later:
  "live_entry w k = None \<Longrightarrow> 0 \<le> d \<Longrightarrow> live_entry (advance d w) k = None"
  by (auto simp add: live_entry_def split: option.splits if_splits)

lemma redis_lookup_earlier:
  "redis_lookup (advance d2 w) k = Some s \<Longrightarrow> d1 \<le> d2 \<Longrightarrow> redis_lookup (advance d1 w) k = Some s"
  by (auto simp add: redis_lookup_def live_entry_def split: option.splits if_splits)

lemma advance_advance: "advance a (advance b w) = advance (b + a) w"
  by (simp add: advance_def)

lemma advance_more_fields [simp]:
  "gateway_faults (advance d w) = gateway_faults w"
  "entropy (advance d w) = entropy w"
  by (simp_all add: advance_def)

lemma Verify_each_wrong:
  assumes "redis_faults w = []"
      and "n = 0 \<and> live_entry w (verifyFailKey t p) = None
           \<or> 0 < n \<and> redis w (verifyFailKey t p) =
               Some \<lparr>rval = Itoa n, rdeadline = Some (clock w + verifyFailTTL)\<rparr>"
      and "redis_lookup (advance (sum_list (map fst attempts)) w) (codeKey t p) = Some s"
      and "\<forall>a \<in> set attempts. 0 \<le> fst a \<and> fst a < verifyFailTTL \<and> snd a \<noteq> s"
      and "n + int (length attempts) \<le> maxVerifyFails"
  shows "fst (Verify_each cfg t p attempts w) = replicate (length attempts) (Some ErrSMSCodeInvalid)
       \<and> redis_faults (snd (Verify_each cfg t p attempts w)) = []
       \<and> clock (snd (Verify_each cfg t p attempts w)) = clock w + sum_list (map fst attempts)
       \<and> gateway_faults (snd (Verify_each cfg t p attempts w)) = gateway_faults w
       \<and> entropy (snd (Verify_each cfg t p attempts w)) = entropy w
       \<and> (\<forall>k. k \<noteq> verifyFailKey t p \<longrightarrow> redis (snd (Verify_each cfg t p attempts w)) k = redis w k)
       \<and> (attempts \<noteq> [] \<longrightarrow> redis (snd (Verify_each cfg t p attempts w)) (verifyFailKey t p) =
             Some \<lparr>rval = Itoa (n + int (length attempts)),
                   rdeadline = Some (clock (snd (Verify_each cfg t p attempts w)) + verifyFailTTL)\<rparr>)"
  using assms
proof (induction attempts arbitrary: w n)
  case Nil
  then show ?case by simp
next
  case (Cons a rest)
  obtain d c where a: "a = (d, c)"
    by (cases a)
  let ?wd = "advance d w"
  let ?rest = "sum_list (map fst rest)"
  obtain r1 w1 where v: "Verify cfg t p c ?wd = (r1, w1)"
    by (cases "Verify cfg t p c ?wd")
  obtain rs w2 where e: "Verify_each cfg t p rest w1 = (rs, w2)"
    by (cases "Verify_each cfg t p rest w1")
  have d: "0 \<le> d" "d < verifyFailTTL" and ne: "c \<noteq> s"
    using Cons.prems(4) by (simp_all add: a)
  have rest: "\<forall>a \<in> set rest. 0 \<le> fst a \<and> fst a < verifyFailTTL \<and> snd a \<noteq> s"
    using Cons.prems(4) by simp
  have rest_nonneg: "0 \<le> ?rest"
    using rest by (intro sum_list_nonneg) auto
  have lt: "n < maxVerifyFails" and bound: "n + 1 + int (length rest) \<le> maxVerifyFails"
    using Cons.prems(5) by simp_all
  have upd: "redis_faults ?wd = []"
    using Cons.prems(1) by simp
  have cnt: "fail_count_is ?wd t p n"
    using Cons.prems(2)
  proof
    assume "n = 0 \<and> live_entry w (verifyFailKey t p) = None"
    then show ?thesis
      using d(1) by (simp add: fail_count_is_def live_entry_later)
  next
    assume *: "0 < n \<and> redis w (verifyFailKey t p) =
               Some \<lparr>rval = Itoa n, rdeadline = Some (clock w + verifyFailTTL)\<rparr>"
    show ?thesis
    proof (rule fail_count_is_fresh)
      show "redis ?wd (verifyFailKey t p) =
              Some \<lparr>rval = Itoa n, rdeadline = Some (clock w + verifyFailTTL)\<rparr>"
        using * by simp
      show "clock ?wd < clock w + verifyFailTTL"
        using d(2) by simp
      show "0 < n" using * by simp
      show "n < 2 ^ 63 - 1" using lt by (simp add: maxVerifyFails_def)
    qed
  qed
  have code_all: "redis_lookup (advance (d + ?rest) w) (codeKey t p) = Some s"
    using Cons.prems(3) by (simp add: a)
  have st: "redis_lookup ?wd (codeKey t p) = Some s"
    using rest_nonneg by (intro redis_lookup_earlier [OF code_all]) simp
  note step = Verify_wrong_step [OF upd cnt lt st ne, of cfg, unfolded v fst_conv snd_conv]
  have clock1: "clock w1 = clock w + d"
    using step(3) by simp
  have redis1: "redis w1 = (redis w)(verifyFailKey t p \<mapsto>
                   \<lparr>rval = Itoa (n + 1), rdeadline = Some (clock w1 + verifyFailTTL)\<rparr>)"
    using step(6) by (simp add: clock1)
  have inv1: "n + 1 = 0 \<and> live_entry w1 (verifyFailKey t p) = None
              \<or> 0 < n + 1 \<and> redis w1 (verifyFailKey t p) =
                  Some \<lparr>rval = Itoa (n + 1), rdeadline = Some (clock w1 + verifyFailTTL)\<rparr>"
    using fail_count_nonneg [OF cnt] by (subst redis1) simp
  have code1: "redis_lookup (advance ?rest w1) (codeKey t p) = Some s"
  proof -
    have "redis_lookup (advance ?rest w1) (codeKey t p) =
            redis_lookup (advance (d + ?rest) w) (codeKey t p)"
      by (rule redis_lookup_key_cong)
        (simp_all add: clock1 step(6) arch3_keys_distinct [THEN not_sym])
    then show ?thesis
      using code_all by simp
  qed
  note ih = Cons.IH [OF step(2) inv1 code1 rest bound, unfolded e fst_conv snd_conv]
  have full: "Verify_each cfg t p (a # rest) w = (r1 # rs, w2)"
    by (simp add: a v e)
  have len: "n + int (length (a # rest)) = n + 1 + int (length rest)"
    by simp
  have f1: "r1 # rs = replicate (length (a # rest)) (Some ErrSMSCodeInvalid)"
    using ih step(1) by simp
  have f2: "redis_faults w2 = []"
    using ih by simp
  have f3: "clock w2 = clock w + sum_list (map fst (a # rest))"
    using ih clock1 by (simp add: a)
  have f4: "gateway_faults w2 = gateway_faults w"
    using ih step(4) by simp
  have f5: "entropy w2 = entropy w"
    using ih step(5) by simp
  have f8: "\<forall>k. k \<noteq> verifyFailKey t p \<longrightarrow> redis w2 k = redis w k"
  proof (intro allI impI)
    fix k assume k: "k \<noteq> verifyFailKey t p"
    have "redis w2 k = redis w1 k" using ih k by simp
    also have "\<dots> = redis w k" using k by (subst redis1) simp
    finally show "redis w2 k = redis w k" .
  qed
  have k1: "redis w1 (verifyFailKey t p) =
             Some \<lparr>rval = Itoa (n + 1), rdeadline = Some (clock w1 + verifyFailTTL)\<rparr>"
    by (subst redis1) simp
  have f9: "redis w2 (verifyFailKey t p) =
             Some \<lparr>rval = Itoa (n + int (length (a # rest))), rdeadline = Some (clock w2 + verifyFailTTL)\<rparr>"
  proof (cases "rest = []")
    case True
    then have "w2 = w1" using e by simp
    then show ?thesis using True k1 by simp
  next
    case False
    have "redis w2 (verifyFailKey t p) =
            Some \<lparr>rval = Itoa (n + 1 + int (length rest)), rdeadline = Some (clock w2 + verifyFailTTL)\<rparr>"
      using ih False by simp
    then show ?thesis unfolding len .
  qed
  show ?case
    unfolding full fst_conv snd_conv
    by (intro conjI impI) (rule f1 f2 f3 f4 f5 f8 f9)+
qed

lemma Verify_each_append:
  "Verify_each cfg t p (xs @ ys) w =
     (fst (Verify_each cfg t p xs w) @ fst (Verify_each cfg t p ys (snd (Verify_each cfg t p xs w))),
      snd (Verify_each cfg t p ys (snd (Verify_each cfg t p xs w))))"
proof (induction xs arbitrary: w)
  case Nil
  then show ?case by simp
next
  case (Cons x xs)
  obtain d c where x: "x = (d, c)"
    by (cases x)
  obtain r1 w1 where v: "Verify cfg t p c (advance d w) = (r1, w1)"
    by (cases "Verify cfg t p c (advance d w)")
  show ?case
    by (simp add: x v Cons.IH split: prod.split)
qed

lemma store_incr_frame:
  "clock (snd (store_incr k w)) = clock w"
  "redis_faults (snd (store_incr k w)) = redis_faults w"
  "k' \<noteq> k \<Longrightarrow> redis (snd (store_incr k w)) k' = redis w k'"
  by (simp_all add: store_incr_def split: option.splits)

lemma store_expire_frame:
  "clock (store_expire k ttl w) = clock w"
  "redis_faults (store_expire k ttl w) = redis_faults w"
  "k' \<noteq> k \<Longrightarrow> redis (store_expire k ttl w) k' = redis w k'"
  by (simp_all add: store_expire_def store_del_def split: option.splits)

lemma run_cmds_snd:
  "snd (run_cmds (c # cs) w) = snd (run_cmds cs (snd (run_cmd c w)))"
  by (simp split: prod.splits)

lemma IncrSendCount_frame:
  assumes up: "redis_faults w = []"
  shows "redis_faults (snd (IncrSendCount t p w)) = []"
    and "clock (snd (IncrSendCount t p w)) = clock w"
    and "k \<noteq> minuteKey t p \<Longrightarrow> k \<noteq> dayKey t p \<Longrightarrow> redis (snd (IncrSendCount t p w)) k = redis w k"
  unfolding IncrSendCount_def pipe_Exec_up [OF up] run_cmds_snd
  using up by (simp_all add: store_incr_frame store_expire_frame)

lemma checkSendLimit_frame:
  "redis (snd (checkSendLimit t p w)) = redis w"
  "clock (snd (checkSendLimit t p w)) = clock w"
  "redis_faults w = [] \<Longrightarrow> redis_faults (snd (checkSendLimit t p w)) = []"
  by (simp_all add: checkSendLimit_def GetSendCount_def rdb_Get_Int_eq
        split: sum.splits prod.splits option.splits if_splits)

lemma generateCode_frame:
  "redis (snd (generateCode w)) = redis w"
  "clock (snd (generateCode w)) = clock w"
  "redis_faults (snd (generateCode w)) = redis_faults w"
  by (simp_all add: generateCode_def split: list.splits)

lemma Send_success_resets:
  assumes up: "redis_faults w = []" and ok: "fst (Send cfg t p w) = None"
  shows "redis_faults (snd (Send cfg t p w)) = []"
    and "redis_lookup (snd (Send cfg t p w)) (verifyFailKey t p) = None"
    and "redis_lookup (snd (Send cfg t p w)) (codeKey t p) =
           Some (fst (generateCode (snd (checkSendLimit t p w))))"
proof -
  obtain tid where tid: "Templates cfg t = Some tid"
    using ok by (cases "Templates cfg t") (simp_all add: Send_def)
  obtain e1 w1 where c: "checkSendLimit t p w = (e1, w1)"
    by (cases "checkSendLimit t p w")
  obtain code w2 where g: "generateCode w1 = (code, w2)"
    by (cases "generateCode w1")
  have e1: "e1 = None"
    using ok by (cases e1) (simp_all add: Send_def tid c)
  have up1: "redis_faults w1 = []" and clock1: "clock w1 = clock w"
    using checkSendLimit_frame [where t = t and p = p and w = w] up by (simp_all add: c)
  have up2: "redis_faults w2 = []" and clock2: "clock w2 = clock w"
    using generateCode_frame [of w1] up1 clock1 by (simp_all add: g)
  let ?w3 = "store_set (codeKey t p) code codeTTL (redis_roundtrip [SET (codeKey t p) code codeTTL] w2)"
  have s: "StoreCode t p code codeTTL w2 = (None, ?w3)"
    using up2 by (simp add: StoreCode_eq next_fault_def)
  obtain e4 w4 where m: "sendSMS cfg phone tid code ?w3 = (e4, w4)" if "phone = p" for phone
    by (cases "sendSMS cfg p tid code ?w3") auto
  note m = m [OF refl]
  have e4: "e4 = None"
    using ok by (cases e4) (simp_all add: Send_def tid c e1 g s m)
  have w4: "redis w4 = redis ?w3" "clock w4 = clock w" "redis_faults w4 = []"
    using sendSMS_fields [where cfg = cfg and phone = p and templateID = tid and code = code and w = ?w3] up2 clock2 by (simp_all add: m)
  let ?w5 = "snd (IncrSendCount t p w4)"
  have w5: "redis_faults ?w5 = []" "clock ?w5 = clock w"
      "redis ?w5 (codeKey t p) = redis ?w3 (codeKey t p)"
    using IncrSendCount_frame [OF w4(3), where t = t and p = p] w4
    by (simp_all add: arch3_keys_distinct [THEN not_sym])
  let ?w6 = "store_del (verifyFailKey t p) (redis_roundtrip [DEL (verifyFailKey t p)] ?w5)"
  have r: "ResetVerifyFailCount t p ?w5 = (None, ?w6)"
    using w5(1) by (simp add: ResetVerifyFailCount_def rdb_Del_eq next_fault_def)
  have final: "snd (Send cfg t p w) = ?w6"
    by (simp add: Send_def tid c e1 g s m e4 r)
  have code: "fst (generateCode (snd (checkSendLimit t p w))) = code"
    by (simp add: c g)
  show "redis_faults (snd (Send cfg t p w)) = []"
    unfolding final using w5(1) by simp
  show "redis_lookup (snd (Send cfg t p w)) (verifyFailKey t p) = None"
    unfolding final by (rule redis_lookup_absent) (simp add: store_del_def)
  have "redis ?w6 (codeKey t p) = Some \<lparr>rval = code, rdeadline = Some (clock w + codeTTL)\<rparr>"
    using w5(3) clock2
    by (simp add: store_del_def store_set_def arch3_keys_distinct [THEN not_sym] codeTTL_def)
  moreover have "clock ?w6 = clock w"
    using w5(2) by simp
  ultimately have "redis_lookup ?w6 (codeKey t p) = Some code"
    by (simp add: redis_lookup_def live_entry_def codeTTL_def)
  then show "redis_lookup (snd (Send cfg t p w)) (codeKey t p) =
           Some (fst (generateCode (snd (checkSendLimit t p w))))"
    unfolding final code .
qed

lemma Verify_accepts:
  assumes "redis_faults w = []" "redis_lookup w (verifyFailKey t p) = None"
      and "redis_lookup w (codeKey t p) = Some code"
  shows "fst (Verify cfg t p code w) = None"
  using assms by (simp add: Verify_result GetVerifyFailCount_eq next_fault_def maxVerifyFails_def)

lemma Verify_locked_for_the_hour:
  assumes up: "redis_faults w = []"
      and cnt: "redis w (verifyFailKey t p) = Some \<lparr>rval = Itoa n, rdeadline = Some (clock w + verifyFailTTL)\<rparr>"
      and n: "maxVerifyFails \<le> n" "n < 2 ^ 63 - 1"
      and d: "0 \<le> d" "d < verifyFailTTL"
  shows "Verify cfg t p code (advance d w) =
           (Some ErrSMSVerifyTooMany, redis_roundtrip [GET (verifyFailKey t p)] (advance d w))"
proof -
  have "fail_count_is (advance d w) t p n"
    using cnt n d by (intro fail_count_is_fresh [where D = "clock w + verifyFailTTL"])
      (simp_all add: maxVerifyFails_def)
  then have "fst (GetVerifyFailCount t p (advance d w)) = Inr n"
    using up by (intro GetVerifyFailCount_counted) (simp_all add: next_fault_def)
  then show ?thesis
    using n(1) by (rule Verify_locked)
qed

lemma GetVerifyFailCount_zero:
  "redis_faults w = [] \<Longrightarrow> redis_lookup w (verifyFailKey t p) = None \<Longrightarrow>
     fst (GetVerifyFailCount t p w) = Inr 0"
  by (simp add: GetVerifyFailCount_eq next_fault_def)

lemma entropy_frame:
  "entropy (snd (checkSendLimit t p w)) = entropy w"
  by (simp add: checkSendLimit_def GetSendCount_def rdb_Get_Int_eq
        split: sum.splits prod.splits option.splits if_splits)

lemma Verify_each_five_wrong:
  assumes up: "redis_faults w = []" and zero: "redis_lookup w (verifyFailKey t p) = None"
      and len: "length attempts = 5"
      and ne: "\<forall>a \<in> set attempts. 0 \<le> fst a \<and> fst a < verifyFailTTL \<and> snd a \<noteq> stored"
      and st: "redis_lookup (advance (sum_list (map fst attempts)) w) (codeKey t p) = Some stored"
  shows "fst (Verify_each cfg t p attempts w) = replicate 5 (Some ErrSMSCodeInvalid)"
    and "redis_faults (snd (Verify_each cfg t p attempts w)) = []"
    and "clock (snd (Verify_each cfg t p attempts w)) = clock w + sum_list (map fst attempts)"
    and "gateway_faults (snd (Verify_each cfg t p attempts w)) = gateway_faults w"
    and "entropy (snd (Verify_each cfg t p attempts w)) = entropy w"
    and "\<forall>k. k \<noteq> verifyFailKey t p \<longrightarrow> redis (snd (Verify_each cfg t p attempts w)) k = redis w k"
    and "redis (snd (Verify_each cfg t p attempts w)) (verifyFailKey t p) =
           Some \<lparr>rval = Itoa 5, rdeadline = Some (clock (snd (Verify_each cfg t p attempts w)) + verifyFailTTL)\<rparr>"
    and "redis_lookup (snd (Verify_each cfg t p attempts w)) (codeKey t p) = Some stored"
proof -
  let ?w5 = "snd (Verify_each cfg t p attempts w)"
  have start: "0 = (0::int) \<and> live_entry w (verifyFailKey t p) = None
      \<or> 0 < (0::int) \<and> redis w (verifyFailKey t p) =
               Some \<lparr>rval = Itoa 0, rdeadline = Some (clock w + verifyFailTTL)\<rparr>"
    using zero by (simp add: redis_lookup_def)
  have bound: "0 + int (length attempts) \<le> maxVerifyFails"
    by (simp add: len maxVerifyFails_def)
  have nonempty: "attempts \<noteq> []"
    using len by auto
  note five = Verify_each_wrong [OF up start st ne bound, of cfg, unfolded len]
  show "fst (Verify_each cfg t p attempts w) = replicate 5 (Some ErrSMSCodeInvalid)"
    using five by simp
  show "redis_faults ?w5 = []"
    using five by simp
  show clock5: "clock ?w5 = clock w + sum_list (map fst attempts)"
    using five by simp
  show "gateway_faults ?w5 = gateway_faults w"
    using five by simp
  show "entropy ?w5 = entropy w"
    using five by simp
  show other: "\<forall>k. k \<noteq> verifyFailKey t p \<longrightarrow> redis ?w5 k = redis w k"
    using five by simp
  show "redis ?w5 (verifyFailKey t p) =
           Some \<lparr>rval = Itoa 5, rdeadline = Some (clock ?w5 + verifyFailTTL)\<rparr>"
    using five nonempty by simp
  have "redis_lookup ?w5 (codeKey t p) =
          redis_lookup (advance (sum_list (map fst attempts)) w) (codeKey t p)"
    using other by (intro redis_lookup_key_cong) (simp_all add: clock5 arch3_keys_distinct [THEN not_sym])
  then show "redis_lookup ?w5 (codeKey t p) = Some stored"
    using st by simp
qed

lemma run_cmds_append_snd:
  "snd (run_cmds (xs @ ys) w) = snd (run_cmds ys (snd (run_cmds xs w)))"
  by (induction xs arbitrary: w) (simp_all add: run_cmds_snd del: run_cmds.simps(2))

lemma incr_expire_fresh:
  assumes "live_entry w k = None" "0 < ttl"
  shows "run_cmds [INCR k, EXPIRE k ttl] w =
           (None, w\<lparr>redis := (redis w)(k \<mapsto> \<lparr>rval = ''1'', rdeadline = Some (clock w + ttl)\<rparr>)\<rparr>)"
proof -
  have 1: "store_incr k w = (None, w\<lparr>redis := (redis w)(k \<mapsto> \<lparr>rval = ''1'', rdeadline = None\<rparr>)\<rparr>)"
    by (simp add: store_incr_def assms(1))
  show ?thesis
    using assms(2) by (simp add: 1 store_expire_def live_entry_upd_same)
qed

lemma incr_expire_twice:
  assumes k1: "live_entry v k1 = None" and k2: "live_entry v k2 = None" and ne: "k2 \<noteq> k1"
      and pos: "0 < a" "0 < b"
  shows "snd (run_cmds [INCR k1, EXPIRE k1 a, INCR k2, EXPIRE k2 b] v) =
           v\<lparr>redis := (redis v)(k1 \<mapsto> \<lparr>rval = ''1'', rdeadline = Some (clock v + a)\<rparr>,
                                  k2 \<mapsto> \<lparr>rval = ''1'', rdeadline = Some (clock v + b)\<rparr>)\<rparr>"
proof -
  let ?v1 = "v\<lparr>redis := (redis v)(k1 \<mapsto> \<lparr>rval = ''1'', rdeadline = Some (clock v + a)\<rparr>)\<rparr>"
  have first: "snd (run_cmds [INCR k1, EXPIRE k1 a] v) = ?v1"
    by (simp only: incr_expire_fresh [OF k1 pos(1)] snd_conv)
  have "live_entry ?v1 k2 = live_entry v k2"
    using ne by (intro live_entry_key_cong) simp_all
  then have k2': "live_entry ?v1 k2 = None"
    using k2 by simp
  have second: "snd (run_cmds [INCR k2, EXPIRE k2 b] ?v1) =
      ?v1\<lparr>redis := (redis ?v1)(k2 \<mapsto> \<lparr>rval = ''1'', rdeadline = Some (clock ?v1 + b)\<rparr>)\<rparr>"
    by (simp only: incr_expire_fresh [OF k2' pos(2)] snd_conv)
  have "snd (run_cmds ([INCR k1, EXPIRE k1 a] @ [INCR k2, EXPIRE k2 b]) v) =
      ?v1\<lparr>redis := (redis ?v1)(k2 \<mapsto> \<lparr>rval = ''1'', rdeadline = Some (clock ?v1 + b)\<rparr>)\<rparr>"
    unfolding run_cmds_append_snd first second ..
  then show ?thesis
    by simp
qed

lemma IncrSendCount_fresh:
  assumes up: "redis_faults w = []"
      and m: "live_entry w (minuteKey t p) = None" and d: "live_entry w (dayKey t p) = None"
  shows "snd (IncrSendCount t p w) =
           (redis_roundtrip [INCR (minuteKey t p), EXPIRE (minuteKey t p) 60,
                             INCR (dayKey t p), EXPIRE (dayKey t p) (24 * 3600)] w)
           \<lparr>redis := (redis w)
               (minuteKey t p \<mapsto> \<lparr>rval = ''1'', rdeadline = Some (clock w + 60)\<rparr>,
                dayKey t p \<mapsto> \<lparr>rval = ''1'', rdeadline = Some (clock w + 24 * 3600)\<rparr>)\<rparr>"
proof -
  let ?cmds = "[INCR (minuteKey t p), EXPIRE (minuteKey t p) 60,
                INCR (dayKey t p), EXPIRE (dayKey t p) (24 * 3600)]"
  let ?w0 = "redis_roundtrip ?cmds w"
  have "live_entry ?w0 (minuteKey t p) = live_entry w (minuteKey t p)"
    by (intro live_entry_key_cong) simp_all
  then have m0: "live_entry ?w0 (minuteKey t p) = None"
    using m by simp
  have "live_entry ?w0 (dayKey t p) = live_entry w (dayKey t p)"
    by (intro live_entry_key_cong) simp_all
  then have d0: "live_entry ?w0 (dayKey t p) = None"
    using d by simp
  have "snd (run_cmds ?cmds ?w0) =
          ?w0\<lparr>redis := (redis ?w0)
               (minuteKey t p \<mapsto> \<lparr>rval = ''1'', rdeadline = Some (clock ?w0 + 60)\<rparr>,
                dayKey t p \<mapsto> \<lparr>rval = ''1'', rdeadline = Some (clock ?w0 + 24 * 3600)\<rparr>)\<rparr>"
    by (rule incr_expire_twice [OF m0 d0 arch3_keys_distinct(6)]) simp_all
  then show ?thesis
    unfolding IncrSendCount_def pipe_Exec_up [OF up] by simp
qed

lemma Send_fresh:
  assumes up: "redis_faults w = []" and tpl: "Templates cfg t = Some tid"
      and m: "redis_lookup w (minuteKey t p) = None" and d: "redis_lookup w (dayKey t p) = None"
      and gw: "gateway_faults w = []" and ent: "entropy w = n # rest"
  shows "fst (Send cfg t p w) = None"
    and "redis_faults (snd (Send cfg t p w)) = []"
    and "gateway_faults (snd (Send cfg t p w)) = []"
    and "entropy (snd (Send cfg t p w)) = rest"
    and "clock (snd (Send cfg t p w)) = clock w"
    and "redis (snd (Send cfg t p w)) =
           (redis w)
             (codeKey t p \<mapsto> \<lparr>rval = Sprintf_06d (int (n mod 1000000)), rdeadline = Some (clock w + codeTTL)\<rparr>,
              minuteKey t p \<mapsto> \<lparr>rval = ''1'', rdeadline = Some (clock w + 60)\<rparr>,
              dayKey t p \<mapsto> \<lparr>rval = ''1'', rdeadline = Some (clock w + 24 * 3600)\<rparr>,
              verifyFailKey t p := None)"
proof -
  let ?code = "Sprintf_06d (int (n mod 1000000))"
  let ?w1 = "redis_roundtrip [GET (dayKey t p)] (redis_roundtrip [GET (minuteKey t p)] w)"
  let ?w2 = "?w1\<lparr>entropy := rest\<rparr>"
  let ?w3 = "store_set (codeKey t p) ?code codeTTL (redis_roundtrip [SET (codeKey t p) ?code codeTTL] ?w2)"
  let ?w4 = "log_event (EvGatewaySend p tid (template_param ?code)) (?w3\<lparr>gateway_faults := tl (gateway_faults ?w3)\<rparr>)"
  let ?w5 = "snd (IncrSendCount t p ?w4)"
  let ?w6 = "store_del (verifyFailKey t p) (redis_roundtrip [DEL (verifyFailKey t p)] ?w5)"
  have limits: "checkSendLimit t p w = (None, ?w1)"
    by (rule checkSendLimit_pass [OF up m d])
  have gen: "generateCode ?w1 = (?code, ?w2)"
    by (simp add: generateCode_def ent)
  have up2: "redis_faults ?w2 = []"
    using up by simp
  have stored: "StoreCode t p ?code codeTTL ?w2 = (None, ?w3)"
    using up2 by (simp add: StoreCode_eq next_fault_def)
  have gateway: "sendSMS cfg p tid ?code ?w3 = (None, ?w4)"
    using gw by (simp add: sendSMS_def Let_def next_fault_def)
  have up4: "redis_faults ?w4 = []"
    using up by simp
  have redis4: "redis ?w4 = (redis w)(codeKey t p \<mapsto> \<lparr>rval = ?code, rdeadline = Some (clock w + codeTTL)\<rparr>)"
    by (simp add: store_set_def codeTTL_def)
  have clock4: "clock ?w4 = clock w"
    by simp
  have "live_entry ?w4 (minuteKey t p) = live_entry w (minuteKey t p)"
    by (rule live_entry_key_cong) (simp_all only: redis4 clock4 fun_upd_other arch3_keys_distinct simp_thms)
  then have m4: "live_entry ?w4 (minuteKey t p) = None"
    using m by (simp add: redis_lookup_def)
  have "live_entry ?w4 (dayKey t p) = live_entry w (dayKey t p)"
    by (rule live_entry_key_cong) (simp_all only: redis4 clock4 fun_upd_other arch3_keys_distinct simp_thms)
  then have d4: "live_entry ?w4 (dayKey t p) = None"
    using d by (simp add: redis_lookup_def)
  note w5 = IncrSendCount_fresh [OF up4 m4 d4]
  have up5: "redis_faults ?w5 = []"
    unfolding w5 using up by simp
  have reset: "ResetVerifyFailCount t p ?w5 = (None, ?w6)"
    using up5 by (simp add: ResetVerifyFailCount_def rdb_Del_eq next_fault_def)
  have send: "Send cfg t p w = (None, ?w6)"
    by (simp only: Send_def tpl limits gen stored gateway reset option.case prod.case snd_conv)
  show "fst (Send cfg t p w) = None"
    by (simp only: send fst_conv)
  show "redis_faults (snd (Send cfg t p w)) = []"
    unfolding send snd_conv using up5 by simp
  show "gateway_faults (snd (Send cfg t p w)) = []"
    unfolding send snd_conv w5 using gw by simp
  show "entropy (snd (Send cfg t p w)) = rest"
    unfolding send snd_conv w5 by simp
  show "clock (snd (Send cfg t p w)) = clock w"
    unfolding send snd_conv w5 by simp
  show "redis (snd (Send cfg t p w)) =
           (redis w)
             (codeKey t p \<mapsto> \<lparr>rval = ?code, rdeadline = Some (clock w + codeTTL)\<rparr>,
              minuteKey t p \<mapsto> \<lparr>rval = ''1'', rdeadline = Some (clock w + 60)\<rparr>,
              dayKey t p \<mapsto> \<lparr>rval = ''1'', rdeadline = Some (clock w + 24 * 3600)\<rparr>,
              verifyFailKey t p := None)"
    unfolding send snd_conv w5 by (simp add: store_del_def store_set_def codeTTL_def)
qed

lemma gateway_frame:
  "gateway_faults (snd (checkSendLimit t p w)) = gateway_faults w"
  "gateway_faults (snd (generateCode w)) = gateway_faults w"
  by (simp_all add: checkSendLimit_def GetSendCount_def rdb_Get_Int_eq generateCode_def
        split: sum.splits prod.splits option.splits if_splits list.splits)

lemma Send_succeeds_within_limits:
  assumes up: "redis_faults w = []" and tpl: "Templates cfg t = Some tid"
      and lim: "fst (checkSendLimit t p w) = None" and gw: "gateway_faults w = []"
  shows "fst (Send cfg t p w) = None"
proof -
  obtain e1 w1 where c: "checkSendLimit t p w = (e1, w1)"
    by (cases "checkSendLimit t p w")
  have e1: "e1 = None"
    using lim by (simp add: c)
  have w1: "redis_faults w1 = []" "gateway_faults w1 = []"
    using checkSendLimit_frame(3) [OF up, of t p] gateway_frame(1) [of t p w] gw by (simp_all add: c)
  obtain code w2 where g: "generateCode w1 = (code, w2)"
    by (cases "generateCode w1")
  have w2: "redis_faults w2 = []" "gateway_faults w2 = []"
    using generateCode_frame(3) [of w1] gateway_frame(2) [of w1] w1 by (simp_all add: g)
  show ?thesis
    using w2 by (simp add: Send_def tpl c e1 g StoreCode_eq sendSMS_def next_fault_def)
qed

lemma Sprintf_06d_demo_second: "Sprintf_06d 271828 = ''271828''"
  by (simp add: Sprintf_06d_def nat_to_dec.simps digit_char_simps)

lemma Atoi_1: "Atoi ''1'' = Some 1"
  using Atoi_Itoa [of 1] by (simp add: Itoa_1)

lemma demo_world_sent_facts:
  "fst (Send demo_sms_config ''login'' ''13800000000'' demo_world_two_codes) = None"
  "redis_faults demo_world_sent = []"
  "gateway_faults demo_world_sent = []"
  "entropy demo_world_sent = [271828]"
  "clock demo_world_sent = 1000"
  "redis demo_world_sent =
     [codeKey ''login'' ''13800000000'' \<mapsto> \<lparr>rval = ''482913'', rdeadline = Some 1300\<rparr>,
      minuteKey ''login'' ''13800000000'' \<mapsto> \<lparr>rval = ''1'', rdeadline = Some 1060\<rparr>,
      dayKey ''login'' ''13800000000'' \<mapsto> \<lparr>rval = ''1'', rdeadline = Some 87400\<rparr>]
     (verifyFailKey ''login'' ''13800000000'' := None)"
proof -
  have w: "redis_faults demo_world_two_codes = []" "gateway_faults demo_world_two_codes = []"
      "entropy demo_world_two_codes = 482913 # [271828]" "clock demo_world_two_codes = 1000"
      "redis demo_world_two_codes = Map.empty"
    by (simp_all add: demo_world_two_codes_def demo_world_def)
  have none: "redis_lookup demo_world_two_codes k = None" for k
    by (rule redis_lookup_absent) (simp add: w)
  have tpl: "Templates demo_sms_config ''login'' = Some ''T1''"
    by (simp add: demo_sms_config_def)
  note sent = Send_fresh [OF w(1) tpl none none w(2) w(3), of "''13800000000''", folded demo_world_sent_def]
  show "fst (Send demo_sms_config ''login'' ''13800000000'' demo_world_two_codes) = None"
    by (rule sent(1))
  show "redis_faults demo_world_sent = []" "gateway_faults demo_world_sent = []"
      "entropy demo_world_sent = [271828]"
    by (rule sent)+
  show "clock demo_world_sent = 1000"
    using sent(5) w(4) by simp
  show "redis demo_world_sent =
     [codeKey ''login'' ''13800000000'' \<mapsto> \<lparr>rval = ''482913'', rdeadline = Some 1300\<rparr>,
      minuteKey ''login'' ''13800000000'' \<mapsto> \<lparr>rval = ''1'', rdeadline = Some 1060\<rparr>,
      dayKey ''login'' ''13800000000'' \<mapsto> \<lparr>rval = ''1'', rdeadline = Some 87400\<rparr>]
     (verifyFailKey ''login'' ''13800000000'' := None)"
    unfolding sent(6) w(4) w(5)
    by (simp add: Sprintf_06d_demo codeTTL_def)
qed

lemma demo_sent_keys:
  "redis demo_world_sent (codeKey ''login'' ''13800000000'') = Some \<lparr>rval = ''482913'', rdeadline = Some 1300\<rparr>"
  "redis demo_world_sent (minuteKey ''login'' ''13800000000'') = Some \<lparr>rval = ''1'', rdeadline = Some 1060\<rparr>"
  "redis demo_world_sent (dayKey ''login'' ''13800000000'') = Some \<lparr>rval = ''1'', rdeadline = Some 87400\<rparr>"
  "redis demo_world_sent (verifyFailKey ''login'' ''13800000000'') = None"
  unfolding demo_world_sent_facts(6) by (simp_all add: arch3_keys)

lemma demo_five_wrong_facts:
  "length demo_five_wrong = 5"
  "\<forall>a \<in> set demo_five_wrong. 0 \<le> fst a \<and> fst a < verifyFailTTL \<and> snd a \<noteq> ''482913''"
  "sum_list (map fst demo_five_wrong) = 40"
  by (simp_all add: demo_five_wrong_def verifyFailTTL_def)

lemma demo_world_locked_eq:
  "fst (Verify_each demo_sms_config ''login'' ''13800000000'' demo_five_wrong demo_world_sent) =
     replicate 5 (Some ErrSMSCodeInvalid)"
  "demo_world_locked =
     redis_roundtrip [GET (verifyFailKey ''login'' ''13800000000'')]
       (advance 20 (snd (Verify_each demo_sms_config ''login'' ''13800000000'' demo_five_wrong demo_world_sent)))"
  "redis_faults (snd (Verify_each demo_sms_config ''login'' ''13800000000'' demo_five_wrong demo_world_sent)) = []"
  "gateway_faults (snd (Verify_each demo_sms_config ''login'' ''13800000000'' demo_five_wrong demo_world_sent)) = []"
  "entropy (snd (Verify_each demo_sms_config ''login'' ''13800000000'' demo_five_wrong demo_world_sent)) = [271828]"
  "clock (snd (Verify_each demo_sms_config ''login'' ''13800000000'' demo_five_wrong demo_world_sent)) = 1040"
  "redis (snd (Verify_each demo_sms_config ''login'' ''13800000000'' demo_five_wrong demo_world_sent))
     (codeKey ''login'' ''13800000000'') = Some \<lparr>rval = ''482913'', rdeadline = Some 1300\<rparr>"
  "redis (snd (Verify_each demo_sms_config ''login'' ''13800000000'' demo_five_wrong demo_world_sent))
     (minuteKey ''login'' ''13800000000'') = Some \<lparr>rval = ''1'', rdeadline = Some 1060\<rparr>"
  "redis (snd (Verify_each demo_sms_config ''login'' ''13800000000'' demo_five_wrong demo_world_sent))
     (dayKey ''login'' ''13800000000'') = Some \<lparr>rval = ''1'', rdeadline = Some 87400\<rparr>"
  "fst (GetVerifyFailCount ''login'' ''13800000000''
     (advance 20 (snd (Verify_each demo_sms_config ''login'' ''13800000000'' demo_five_wrong demo_world_sent)))) =
     Inr 5"
proof -
  let ?t = "''login''" and ?p = "''13800000000''"
  let ?w5 = "snd (Verify_each demo_sms_config ?t ?p demo_five_wrong demo_world_sent)"
  have zero: "redis_lookup demo_world_sent (verifyFailKey ?t ?p) = None"
    by (rule redis_lookup_absent) (rule demo_sent_keys)
  have st: "redis_lookup (advance (sum_list (map fst demo_five_wrong)) demo_world_sent) (codeKey ?t ?p) =
              Some ''482913''"
    by (simp add: demo_five_wrong_facts(3) redis_lookup_def live_entry_def demo_sent_keys
          demo_world_sent_facts(5))
  note five = Verify_each_five_wrong [OF demo_world_sent_facts(2) zero demo_five_wrong_facts(1,2) st,
      of demo_sms_config]
  show "fst (Verify_each demo_sms_config ?t ?p demo_five_wrong demo_world_sent) =
     replicate 5 (Some ErrSMSCodeInvalid)"
    by (rule five(1))
  show "redis_faults ?w5 = []"
    by (rule five(2))
  show "gateway_faults ?w5 = []"
    unfolding five(4) by (rule demo_world_sent_facts)
  show "entropy ?w5 = [271828]"
    unfolding five(5) by (rule demo_world_sent_facts)
  show "clock ?w5 = 1040"
    unfolding five(3) demo_five_wrong_facts(3) demo_world_sent_facts(5) by simp
  show "redis ?w5 (codeKey ?t ?p) = Some \<lparr>rval = ''482913'', rdeadline = Some 1300\<rparr>"
    using five(6) arch3_keys_distinct(1) [THEN not_sym] demo_sent_keys(1) by metis
  show "redis ?w5 (minuteKey ?t ?p) = Some \<lparr>rval = ''1'', rdeadline = Some 1060\<rparr>"
    using five(6) arch3_keys_distinct(4) demo_sent_keys(2) by metis
  show "redis ?w5 (dayKey ?t ?p) = Some \<lparr>rval = ''1'', rdeadline = Some 87400\<rparr>"
    using five(6) arch3_keys_distinct(5) demo_sent_keys(3) by metis
  have "fail_count_is (advance 20 ?w5) ?t ?p 5"
    by (rule fail_count_is_fresh [where D = "clock ?w5 + verifyFailTTL"])
      (simp_all add: five(7) verifyFailTTL_def)
  then show "fst (GetVerifyFailCount ?t ?p (advance 20 ?w5)) = Inr 5"
    using five(2) by (intro GetVerifyFailCount_counted) (simp_all add: next_fault_def)
  have "Verify demo_sms_config ?t ?p ''482913'' (advance 20 ?w5) =
           (Some ErrSMSVerifyTooMany, redis_roundtrip [GET (verifyFailKey ?t ?p)] (advance 20 ?w5))"
    using five(2) five(7) by (rule Verify_locked_for_the_hour) (simp_all add: maxVerifyFails_def verifyFailTTL_def)
  then show "demo_world_locked = redis_roundtrip [GET (verifyFailKey ?t ?p)] (advance 20 ?w5)"
    unfolding demo_world_locked_def Verify_each_append by simp
qed

(*CLAIMS*)
section \<open>Token rotation\<close>



text \<open>
  Claim C2. For a valid refresh token that is not revoked and whose subject exists,
  with the cache and the database answering, the first \<open>RefreshToken\<close> returns a new
  pair: the two tokens \<open>GenerateTokenPair\<close> mints at that moment for the same subject,
  signed by the manager, with the next two ids of the supply (different from the old id
  whenever that one was drawn earlier). A second call with the same token string (at
  once, or any time before the blacklist entry runs out) fails with \<open>CodeTokenInvalid\<close>
  and mints nothing.
\<close>

theorem RefreshToken_twice_second_invalid:
  assumes valid: "ParseToken m refreshToken TokenTypeRefresh w = Inr claims"
      and unrevoked: "redis_lookup w (blacklist_key (ID claims)) \<noteq> Some ''1''"
      and subject: "find (\<lambda>u. usr_UserID u = UserID claims) (db_users w) = Some u"
      and cache_up: "redis_faults w = []"
      and db_up: "db_faults w = []"
      and soon: "d < refreshExpire m"
  shows "\<exists>w' r.
           service_RefreshToken m refreshToken w =
             (Inr \<lparr>AccessToken = Compact HS256
                      \<lparr>UserID = UserID claims, TokenType = TokenTypeAccess, ID = uuid_String (uuid_ctr w),
                       IssuedAt = Some (clock w), ExpiresAt = Some (clock w + accessExpire m)\<rparr> (secret m),
                   RefreshToken = Compact HS256
                      \<lparr>UserID = UserID claims, TokenType = TokenTypeRefresh, ID = uuid_String (Suc (uuid_ctr w)),
                       IssuedAt = Some (clock w), ExpiresAt = Some (clock w + refreshExpire m)\<rparr> (secret m)\<rparr>,
              w')
           \<and> w' = snd (GenerateTokenPair m (UserID claims) (rotated_world m claims w))
           \<and> uuid_ctr w' = Suc (Suc (uuid_ctr w))
           \<and> (\<forall>j. j < uuid_ctr w \<longrightarrow> ID claims = uuid_String j \<longrightarrow>
                 ID claims \<noteq> uuid_String (uuid_ctr w) \<and> ID claims \<noteq> uuid_String (Suc (uuid_ctr w)))
           \<and> service_RefreshToken m refreshToken (advance d w') \<noteq>
               service_RefreshToken m refreshToken w
           \<and> fst (service_RefreshToken m refreshToken (advance d w')) = Inl r
           \<and> Code r = CodeTokenInvalid
           \<and> uuid_ctr (snd (service_RefreshToken m refreshToken (advance d w'))) = uuid_ctr w'"
proof -
  let ?k = "blacklist_key (ID claims)"
  let ?w3 = "rotated_world m claims w"
  let ?w4 = "snd (GenerateTokenPair m (UserID claims) ?w3)"
  note first = service_RefreshToken_rotates [OF valid unrevoked subject cache_up db_up]
  have w4: "?w4 = ?w3\<lparr>uuid_ctr := Suc (Suc (uuid_ctr ?w3)),
                trace := trace ?w3 @ [EvUuidNew (uuid_String (uuid_ctr ?w3)),
                                      EvUuidNew (uuid_String (Suc (uuid_ctr ?w3)))]\<rparr>"
    by (simp add: GenerateTokenPair_eq)
  have ctr3: "uuid_ctr ?w3 = uuid_ctr w"
    by (simp add: rotated_world_def)
  have ctr4: "uuid_ctr ?w4 = Suc (Suc (uuid_ctr w))"
    by (simp add: w4 ctr3)
  have fresh: "\<forall>j. j < uuid_ctr w \<longrightarrow> ID claims = uuid_String j \<longrightarrow>
                 ID claims \<noteq> uuid_String (uuid_ctr w) \<and> ID claims \<noteq> uuid_String (Suc (uuid_ctr w))"
    using uuid_String_inj by fastforce
  have faults4: "redis_faults (advance d ?w4) = []"
    using cache_up by (simp add: GenerateTokenPair_eq advance_def rotated_world_def)
  have listed: "redis_lookup (advance d ?w4) ?k = Some ''1''"
    using soon
    by (simp add: GenerateTokenPair_eq advance_def rotated_world_def redis_lookup_def live_entry_def
          store_set_def)
  from ParseToken_later [OF valid, of "advance d ?w4"]
  have second: "\<exists>r. service_RefreshToken m refreshToken (advance d ?w4) =
                      (Inl r, snd (service_RefreshToken m refreshToken (advance d ?w4)))
                    \<and> Code r = CodeTokenInvalid
                    \<and> uuid_ctr (snd (service_RefreshToken m refreshToken (advance d ?w4))) = uuid_ctr ?w4"
  proof
    assume "ParseToken m refreshToken TokenTypeRefresh (advance d ?w4) = Inr claims"
    then show ?thesis
      using listed faults4
      by (simp add: service_RefreshToken_def IsTokenBlacklisted_eq next_fault_def response_Err_def
            advance_def)
  next
    assume "ParseToken m refreshToken TokenTypeRefresh (advance d ?w4) = Inl (ParseFailed ErrTokenExpired)"
    then show ?thesis
      by (simp add: service_RefreshToken_def response_Err_def advance_def)
  qed
  then obtain r where
    s1: "service_RefreshToken m refreshToken (advance d ?w4) =
           (Inl r, snd (service_RefreshToken m refreshToken (advance d ?w4)))" and
    s2: "Code r = CodeTokenInvalid" and
    s3: "uuid_ctr (snd (service_RefreshToken m refreshToken (advance d ?w4))) = uuid_ctr ?w4"
    by blast
  have s0: "fst (service_RefreshToken m refreshToken (advance d ?w4)) = Inl r"
    using s1 by (metis fst_conv)
  have differ: "service_RefreshToken m refreshToken (advance d ?w4) \<noteq> service_RefreshToken m refreshToken w"
    using s0 first by (metis fst_conv sum.distinct(1))
  show ?thesis
    using first ctr4 fresh differ s0 s2 s3 by (intro exI [of _ ?w4] exI [of _ r]) simp
qed

theorem RefreshToken_twice_second_invalid_witness:
  "\<exists>w' r.
     service_RefreshToken (NewManager demo_config) demo_refresh_token (demo_world_minted\<lparr>clock := 4600\<rparr>) =
       (Inr \<lparr>AccessToken = Compact HS256
                \<lparr>UserID = ''u1'', TokenType = ''access'', ID = ''uuid-2'',
                 IssuedAt = Some 4600, ExpiresAt = Some 5500\<rparr> ''k'',
             RefreshToken = Compact HS256
                \<lparr>UserID = ''u1'', TokenType = ''refresh'', ID = ''uuid-3'',
                 IssuedAt = Some 4600, ExpiresAt = Some 609400\<rparr> ''k''\<rparr>,
        w')
     \<and> ''uuid-1'' \<noteq> ''uuid-2'' \<and> ''uuid-1'' \<noteq> ''uuid-3''
     \<and> fst (service_RefreshToken (NewManager demo_config) demo_refresh_token (advance 60 w')) = Inl r
     \<and> Code r = CodeTokenInvalid"
proof -
  let ?w = "demo_world_minted\<lparr>clock := 4600\<rparr>"
  have minted: "redis ?w = Map.empty" "db_users ?w = [demo_user]" "redis_faults ?w = []"
      "db_faults ?w = []" "uuid_ctr ?w = Suc (Suc 0)" "clock ?w = 4600"
    by (simp_all add: demo_world_minted_def GenerateTokenPair_eq demo_world_def)
  have unrevoked: "redis_lookup ?w (blacklist_key (ID demo_refresh_claims)) \<noteq> Some ''1''"
    by (simp add: redis_lookup_def live_entry_def minted)
  have subject: "find (\<lambda>u. usr_UserID u = UserID demo_refresh_claims) (db_users ?w) = Some demo_user"
    by (simp add: minted demo_user_def demo_claims_fields)
  have soon: "60 < refreshExpire (NewManager demo_config)"
    by (simp add: NewManager_def demo_config_def DefaultRefreshTokenDuration_def)
  have ids: "uuid_String (Suc (Suc 0)) = ''uuid-2''" "uuid_String (Suc (Suc (Suc 0))) = ''uuid-3''"
    by (simp_all add: uuid_String_def nat_to_dec.simps digit_char_simps numeral_2_eq_2 [symmetric]
          numeral_3_eq_3 [symmetric])
  from RefreshToken_twice_second_invalid [OF demo_parse unrevoked subject minted(3) minted(4) soon]
  obtain w' r where
    a: "service_RefreshToken (NewManager demo_config) demo_refresh_token ?w =
         (Inr \<lparr>AccessToken = Compact HS256
                  \<lparr>UserID = UserID demo_refresh_claims, TokenType = TokenTypeAccess,
                   ID = uuid_String (uuid_ctr ?w), IssuedAt = Some (clock ?w),
                   ExpiresAt = Some (clock ?w + accessExpire (NewManager demo_config))\<rparr>
                  (secret (NewManager demo_config)),
               RefreshToken = Compact HS256
                  \<lparr>UserID = UserID demo_refresh_claims, TokenType = TokenTypeRefresh,
                   ID = uuid_String (Suc (uuid_ctr ?w)), IssuedAt = Some (clock ?w),
                   ExpiresAt = Some (clock ?w + refreshExpire (NewManager demo_config))\<rparr>
                  (secret (NewManager demo_config))\<rparr>,
          w')" and
    b: "fst (service_RefreshToken (NewManager demo_config) demo_refresh_token (advance 60 w')) = Inl r" and
    c: "Code r = CodeTokenInvalid"
    by blast
  have a': "service_RefreshToken (NewManager demo_config) demo_refresh_token ?w =
       (Inr \<lparr>AccessToken = Compact HS256
                \<lparr>UserID = ''u1'', TokenType = ''access'', ID = ''uuid-2'',
                 IssuedAt = Some 4600, ExpiresAt = Some 5500\<rparr> ''k'',
             RefreshToken = Compact HS256
                \<lparr>UserID = ''u1'', TokenType = ''refresh'', ID = ''uuid-3'',
                 IssuedAt = Some 4600, ExpiresAt = Some 609400\<rparr> ''k''\<rparr>,
        w')"
    unfolding a
    by (simp add: minted ids demo_claims_fields NewManager_def demo_config_def TokenTypeAccess_def
          TokenTypeRefresh_def DefaultAccessTokenDuration_def DefaultRefreshTokenDuration_def)
  show ?thesis
    using a' b c by (intro exI [of _ w'] exI [of _ r]) simp
qed

text \<open>
  Claim C6 (as amended). The claim says the blacklist entry lives no longer than the
  revoked token has left. The code gives every entry written by \<open>RevokeRefreshToken\<close>
  the manager's full refresh lifetime instead: a token minted at time 1000 and rotated at
  time 4600 has 601200 seconds left, and its entry gets 604800.
\<close>

theorem revocation_ttl_exceeds_remaining_validity:
  "fst (service_RefreshToken (NewManager demo_config) demo_refresh_token (demo_world\<lparr>clock := 4600\<rparr>)) =
     Inr \<lparr>AccessToken = Compact HS256
              \<lparr>UserID = ''u1'', TokenType = ''access'', ID = ''uuid-0'',
               IssuedAt = Some 4600, ExpiresAt = Some 5500\<rparr> ''k'',
          RefreshToken = Compact HS256
              \<lparr>UserID = ''u1'', TokenType = ''refresh'', ID = ''uuid-1'',
               IssuedAt = Some 4600, ExpiresAt = Some 609400\<rparr> ''k''\<rparr>
   \<and> ExpiresAt demo_refresh_claims = Some 605800
   \<and> redis_TTL (snd (service_RefreshToken (NewManager demo_config) demo_refresh_token (demo_world\<lparr>clock := 4600\<rparr>)))
        (blacklist_key (ID demo_refresh_claims)) = Some 604800
   \<and> \<not> (604800 \<le> 605800 - clock (demo_world\<lparr>clock := 4600\<rparr>))"
  using demo_rotation demo_rotation_TTL by (simp add: demo_claims_fields)

text \<open>
  Claim C6, amended: an entry written by \<open>RevokeRefreshToken\<close> has a TTL equal to the
  manager's configured refresh lifetime. For a refresh token minted by the same manager
  and rotated no earlier than it was issued, that TTL is at least the validity the token
  has left, and equal to it only when the rotation happens at the issue time.
\<close>

theorem revocation_ttl_is_refresh_lifetime:
  assumes minted: "GenerateTokenPair (NewManager cfg) userID w0 = (Inr pair0, w0')"
      and later: "clock w0 \<le> clock w"
      and rotated: "service_RefreshToken (NewManager cfg) (RefreshToken pair0) w = (Inr pair, w')"
  shows "\<exists>claims e.
           ParseToken (NewManager cfg) (RefreshToken pair0) TokenTypeRefresh w = Inr claims
           \<and> ExpiresAt claims = Some e
           \<and> redis_TTL w' (blacklist_key (ID claims)) = Some (refreshExpire (NewManager cfg))
           \<and> e - clock w \<le> refreshExpire (NewManager cfg)
           \<and> (e - clock w = refreshExpire (NewManager cfg) \<longleftrightarrow> clock w = clock w0)"
proof -
  let ?m = "NewManager cfg"
  let ?rc = "\<lparr>UserID = userID, TokenType = TokenTypeRefresh, ID = uuid_String (Suc (uuid_ctr w0)),
               IssuedAt = Some (clock w0), ExpiresAt = Some (clock w0 + refreshExpire ?m)\<rparr>"
  have tok: "RefreshToken pair0 = Compact HS256 ?rc (secret ?m)"
    using minted by (auto simp add: GenerateTokenPair_eq)
  from service_RefreshToken_success [OF rotated] obtain claims w2 w3 where
    parse: "ParseToken ?m (RefreshToken pair0) TokenTypeRefresh w = Inr claims" and
    rev: "RevokeRefreshToken ?m (ID claims) w2 = (None, w3)" and
    gen: "GenerateTokenPair ?m (UserID claims) w3 = (Inr pair, w')"
    by blast
  have claims: "claims = ?rc"
    using parse unfolding tok by (rule ParseToken_Compact)
  have "redis_TTL w3 (blacklist_key (ID claims)) = Some (refreshExpire ?m)"
    using rev NewManager_positive(2) by (rule RevokeRefreshToken_TTL)
  moreover have "redis w' = redis w3" "clock w' = clock w3"
    using gen by (auto simp add: GenerateTokenPair_eq)
  ultimately have ttl: "redis_TTL w' (blacklist_key (ID claims)) = Some (refreshExpire ?m)"
    using redis_TTL_cong [of w' w3 "blacklist_key (ID claims)"] by simp
  have e: "ExpiresAt claims = Some (clock w0 + refreshExpire ?m)"
    by (simp add: claims)
  show ?thesis
    using parse ttl e later
    by (intro exI [of _ claims] exI [of _ "clock w0 + refreshExpire ?m"]) auto
qed

theorem revocation_ttl_is_refresh_lifetime_witness:
  "\<exists>claims e.
     ParseToken (NewManager demo_config) demo_refresh_token TokenTypeRefresh (demo_world\<lparr>clock := 4600\<rparr>) = Inr claims
     \<and> ExpiresAt claims = Some e
     \<and> redis_TTL (snd (service_RefreshToken (NewManager demo_config) demo_refresh_token (demo_world\<lparr>clock := 4600\<rparr>)))
          (blacklist_key (ID claims)) = Some (refreshExpire (NewManager demo_config))
     \<and> e - 4600 \<le> refreshExpire (NewManager demo_config)
     \<and> (e - 4600 = refreshExpire (NewManager demo_config) \<longleftrightarrow> (4600::int) = 1000)"
proof -
  let ?w = "demo_world\<lparr>clock := 4600\<rparr>"
  have later: "clock demo_world \<le> clock ?w"
    by (simp add: demo_world_def)
  have rotated: "service_RefreshToken (NewManager demo_config)
        (RefreshToken \<lparr>AccessToken = Compact HS256
              \<lparr>UserID = ''u1'', TokenType = ''access'', ID = ''uuid-0'',
               IssuedAt = Some 1000, ExpiresAt = Some 1900\<rparr> ''k'',
           RefreshToken = demo_refresh_token\<rparr>) ?w =
      (Inr \<lparr>AccessToken = Compact HS256
              \<lparr>UserID = ''u1'', TokenType = ''access'', ID = ''uuid-0'',
               IssuedAt = Some 4600, ExpiresAt = Some 5500\<rparr> ''k'',
          RefreshToken = Compact HS256
              \<lparr>UserID = ''u1'', TokenType = ''refresh'', ID = ''uuid-1'',
               IssuedAt = Some 4600, ExpiresAt = Some 609400\<rparr> ''k''\<rparr>,
       snd (service_RefreshToken (NewManager demo_config) demo_refresh_token ?w))"
    using demo_rotation by (simp add: prod_eq_iff)
  show ?thesis
    using revocation_ttl_is_refresh_lifetime [OF demo_minted later rotated]
    by (simp add: demo_world_def)
qed

section \<open>Minting and parsing\<close>

text \<open>
  Claim C7. For every subject id, \<open>GenerateTokenPair\<close> returns an access token and a
  refresh token for that subject, tagged \<open>access\<close> and \<open>refresh\<close>. Their ids are the
  two values \<open>uuid.New\<close> returned during the call, they differ from each other, and
  they differ from the ids of every pair minted later (by any manager, in any world whose
  supply has not been rewound). Parsing the access token as a refresh token fails with
  the wrong-kind error, and at no later time is it accepted as one.
\<close>

theorem GenerateTokenPair_distinct_ids_and_kinds:
  "\<exists>ac rc w'.
     GenerateTokenPair (NewManager cfg) userID w =
       (Inr \<lparr>AccessToken = Compact HS256 ac (Secret cfg), RefreshToken = Compact HS256 rc (Secret cfg)\<rparr>, w')
     \<and> ID ac = uuid_String (uuid_ctr w) \<and> ID rc = uuid_String (Suc (uuid_ctr w))
     \<and> trace w' = trace w @ [EvUuidNew (ID ac), EvUuidNew (ID rc)]
     \<and> uuid_ctr w' = Suc (Suc (uuid_ctr w))
     \<and> ID ac \<noteq> ID rc
     \<and> (\<forall>m2 userID2 w2. uuid_ctr w' \<le> uuid_ctr w2 \<longrightarrow>
           (\<exists>pair2 w2' ac2 rc2.
              GenerateTokenPair m2 userID2 w2 = (Inr pair2, w2')
              \<and> token_claims (AccessToken pair2) = Some ac2
              \<and> token_claims (RefreshToken pair2) = Some rc2
              \<and> distinct [ID ac, ID rc, ID ac2, ID rc2]))
     \<and> TokenType ac = TokenTypeAccess \<and> TokenType rc = TokenTypeRefresh
     \<and> UserID ac = userID \<and> UserID rc = userID
     \<and> IssuedAt ac = Some (clock w) \<and> IssuedAt rc = Some (clock w)
     \<and> ExpiresAt ac = Some (clock w + accessExpire (NewManager cfg))
     \<and> ExpiresAt rc = Some (clock w + refreshExpire (NewManager cfg))
     \<and> ParseToken (NewManager cfg) (Compact HS256 ac (Secret cfg)) TokenTypeAccess w' = Inr ac
     \<and> ParseToken (NewManager cfg) (Compact HS256 rc (Secret cfg)) TokenTypeRefresh w' = Inr rc
     \<and> ParseToken (NewManager cfg) (Compact HS256 ac (Secret cfg)) TokenTypeRefresh w' =
         Inl (WrongKind TokenTypeRefresh TokenTypeAccess)
     \<and> (\<forall>d c. ParseToken (NewManager cfg) (Compact HS256 ac (Secret cfg)) TokenTypeRefresh (advance d w') \<noteq> Inr c)"
proof -
  let ?m = "NewManager cfg"
  let ?ac = "\<lparr>UserID = userID, TokenType = TokenTypeAccess, ID = uuid_String (uuid_ctr w),
               IssuedAt = Some (clock w), ExpiresAt = Some (clock w + accessExpire ?m)\<rparr>"
  let ?rc = "\<lparr>UserID = userID, TokenType = TokenTypeRefresh, ID = uuid_String (Suc (uuid_ctr w)),
               IssuedAt = Some (clock w), ExpiresAt = Some (clock w + refreshExpire ?m)\<rparr>"
  let ?w' = "w\<lparr>uuid_ctr := Suc (Suc (uuid_ctr w)),
        trace := trace w @ [EvUuidNew (uuid_String (uuid_ctr w)), EvUuidNew (uuid_String (Suc (uuid_ctr w)))]\<rparr>"
  have pos: "0 < accessExpire ?m" "0 < refreshExpire ?m"
    by (rule NewManager_positive)+
  have sec: "secret ?m = Secret cfg"
    by (simp add: NewManager_def)
  have gen: "GenerateTokenPair ?m userID w =
       (Inr \<lparr>AccessToken = Compact HS256 ?ac (Secret cfg), RefreshToken = Compact HS256 ?rc (Secret cfg)\<rparr>, ?w')"
    by (simp add: GenerateTokenPair_eq sec)
  have ids: "ID ?ac \<noteq> ID ?rc"
    using uuid_String_inj [of "uuid_ctr w" "Suc (uuid_ctr w)"] by auto
  have later: "\<exists>pair2 w2' ac2 rc2.
              GenerateTokenPair m2 userID2 w2 = (Inr pair2, w2')
              \<and> token_claims (AccessToken pair2) = Some ac2
              \<and> token_claims (RefreshToken pair2) = Some rc2
              \<and> distinct [ID ?ac, ID ?rc, ID ac2, ID rc2]"
    if le: "uuid_ctr ?w' \<le> uuid_ctr w2" for m2 userID2 w2
  proof -
    have d: "distinct [uuid_String (uuid_ctr w), uuid_String (Suc (uuid_ctr w)),
                       uuid_String (uuid_ctr w2), uuid_String (Suc (uuid_ctr w2))]"
      using le uuid_String_inj by fastforce
    show ?thesis
      unfolding GenerateTokenPair_eq using d by (simp add: token_claims_def)
  qed
  have kinds: "TokenType ?ac \<noteq> TokenTypeRefresh"
    by (simp add: TokenTypeAccess_def TokenTypeRefresh_def)
  have okA: "ParseToken ?m (Compact HS256 ?ac (Secret cfg)) TokenTypeAccess ?w' = Inr ?ac"
    using pos by (simp add: ParseToken_def ParseWithClaims_def keyFunc_def is_HMAC_def sec)
  have okR: "ParseToken ?m (Compact HS256 ?rc (Secret cfg)) TokenTypeRefresh ?w' = Inr ?rc"
    using pos by (simp add: ParseToken_def ParseWithClaims_def keyFunc_def is_HMAC_def sec)
  have wrong: "ParseToken ?m (Compact HS256 ?ac (Secret cfg)) TokenTypeRefresh ?w' =
         Inl (WrongKind TokenTypeRefresh TokenTypeAccess)"
    using pos kinds by (simp add: ParseToken_def ParseWithClaims_def keyFunc_def is_HMAC_def sec)
  have never: "\<forall>d c. ParseToken ?m (Compact HS256 ?ac (Secret cfg)) TokenTypeRefresh (advance d ?w') \<noteq> Inr c"
    using kinds by (simp add: ParseToken_def ParseWithClaims_def keyFunc_def is_HMAC_def sec)
  have all: "\<forall>m2 userID2 w2. uuid_ctr ?w' \<le> uuid_ctr w2 \<longrightarrow>
           (\<exists>pair2 w2' ac2 rc2.
              GenerateTokenPair m2 userID2 w2 = (Inr pair2, w2')
              \<and> token_claims (AccessToken pair2) = Some ac2
              \<and> token_claims (RefreshToken pair2) = Some rc2
              \<and> distinct [ID ?ac, ID ?rc, ID ac2, ID rc2])"
    using later by blast
  show ?thesis
    by (intro exI [of _ ?ac] exI [of _ ?rc] exI [of _ ?w'] conjI; (fact gen ids all okA okR wrong never | simp))
qed

theorem GenerateTokenPair_distinct_ids_and_kinds_witness:
  "\<exists>ac rc w' pair2 w2' ac2 rc2.
     GenerateTokenPair (NewManager demo_config) ''u1'' demo_world =
       (Inr \<lparr>AccessToken = Compact HS256 ac (Secret demo_config),
             RefreshToken = Compact HS256 rc (Secret demo_config)\<rparr>, w')
     \<and> ID ac = ''uuid-0'' \<and> ID rc = ''uuid-1''
     \<and> GenerateTokenPair (NewManager demo_config) ''u2'' w' = (Inr pair2, w2')
     \<and> token_claims (AccessToken pair2) = Some ac2
     \<and> token_claims (RefreshToken pair2) = Some rc2
     \<and> distinct [ID ac, ID rc, ID ac2, ID rc2]
     \<and> ParseToken (NewManager demo_config) (Compact HS256 ac (Secret demo_config)) TokenTypeRefresh w' =
         Inl (WrongKind TokenTypeRefresh TokenTypeAccess)"
proof -
  from GenerateTokenPair_distinct_ids_and_kinds [of demo_config "''u1''" demo_world]
  obtain ac rc w' where
    g: "GenerateTokenPair (NewManager demo_config) ''u1'' demo_world =
       (Inr \<lparr>AccessToken = Compact HS256 ac (Secret demo_config),
             RefreshToken = Compact HS256 rc (Secret demo_config)\<rparr>, w')" and
    i: "ID ac = uuid_String (uuid_ctr demo_world)" "ID rc = uuid_String (Suc (uuid_ctr demo_world))" and
    l: "\<forall>m2 userID2 w2. uuid_ctr w' \<le> uuid_ctr w2 \<longrightarrow>
           (\<exists>pair2 w2' ac2 rc2.
              GenerateTokenPair m2 userID2 w2 = (Inr pair2, w2')
              \<and> token_claims (AccessToken pair2) = Some ac2
              \<and> token_claims (RefreshToken pair2) = Some rc2
              \<and> distinct [ID ac, ID rc, ID ac2, ID rc2])" and
    p: "ParseToken (NewManager demo_config) (Compact HS256 ac (Secret demo_config)) TokenTypeRefresh w' =
         Inl (WrongKind TokenTypeRefresh TokenTypeAccess)"
    by blast
  have i': "ID ac = ''uuid-0''" "ID rc = ''uuid-1''"
    using i by (simp_all add: demo_world_def uuid_String_small)
  from l obtain pair2 w2' ac2 rc2 where
    "GenerateTokenPair (NewManager demo_config) ''u2'' w' = (Inr pair2, w2')"
    "token_claims (AccessToken pair2) = Some ac2" "token_claims (RefreshToken pair2) = Some rc2"
    "distinct [ID ac, ID rc, ID ac2, ID rc2]"
    by (meson order_refl)
  with g i' p show ?thesis by blast
qed

section \<open>Revocation checks\<close>



section \<open>Verification codes\<close>

text \<open>
  Claim C3 (as stated, on archv2). \<open>Verify\<close> of archv2 returns one error when no code
  is stored and another when the stored code differs from the candidate.
\<close>

theorem v2_Verify_distinguishes_missing_from_wrong:
  "fst (v2_Verify demo_v2_client ''login'' ''13800000000'' ''000000'' demo_world) =
     Some (Errorf ''code expired or does not exist'')
   \<and> fst (v2_Verify demo_v2_client ''login'' ''13800000000'' ''000000'' demo_world_v2_issued) =
     Some (Errorf ''code is not correct'')
   \<and> fst (v2_Verify demo_v2_client ''login'' ''13800000000'' ''000000'' demo_world) \<noteq>
     fst (v2_Verify demo_v2_client ''login'' ''13800000000'' ''000000'' demo_world_v2_issued)"
proof -
  have a: "fst (v2_Verify demo_v2_client ''login'' ''13800000000'' ''000000'' demo_world) =
      Some (Errorf ''code expired or does not exist'')"
    by (simp add: v2_Verify_result demo_v2_facts demo_world_cache next_fault_def)
  have b: "fst (v2_Verify demo_v2_client ''login'' ''13800000000'' ''000000'' demo_world_v2_issued) =
      Some (Errorf ''code is not correct'')"
    by (simp add: v2_Verify_result demo_v2_facts keys_demo next_fault_def demo_world_v2_issued_def
          demo_world_def redis_lookup_def live_entry_def)
  show ?thesis by (simp add: a b)
qed

text \<open>
  Claim C3, amended (arch3). Take two worlds with the same fail counter and the same
  cache outcomes, one with no stored code and one whose stored code differs from the
  candidate: \<open>Verify\<close> returns the same error in both, and that error is
  \<open>ErrSMSCodeInvalid\<close> whenever the fail counter was read and is below the limit.
\<close>

theorem Verify_same_error_for_missing_and_wrong_code:
  assumes same_counter: "redis_lookup w1 (verifyFailKey smsType phone) = redis_lookup w2 (verifyFailKey smsType phone)"
      and same_faults: "redis_faults w1 = redis_faults w2"
      and missing: "redis_lookup w1 (codeKey smsType phone) = None"
      and stored: "redis_lookup w2 (codeKey smsType phone) = Some storedCode"
      and wrong: "storedCode \<noteq> code"
  shows "fst (Verify cfg smsType phone code w1) = fst (Verify cfg smsType phone code w2)
         \<and> (\<forall>failCount. fst (GetVerifyFailCount smsType phone w1) = Inr failCount \<and> failCount < maxVerifyFails \<longrightarrow>
               fst (Verify cfg smsType phone code w1) = Some ErrSMSCodeInvalid
               \<and> fst (Verify cfg smsType phone code w2) = Some ErrSMSCodeInvalid)"
proof -
  have c: "fst (GetVerifyFailCount smsType phone w1) = fst (GetVerifyFailCount smsType phone w2)"
    by (simp add: GetVerifyFailCount_eq same_counter same_faults)
  have r1: "fst (Verify cfg smsType phone code w1) =
      (case fst (GetVerifyFailCount smsType phone w1) of
         Inl e \<Rightarrow> Some e
       | Inr failCount \<Rightarrow> if maxVerifyFails \<le> failCount then Some ErrSMSVerifyTooMany else Some ErrSMSCodeInvalid)"
    by (simp add: Verify_result missing split: sum.split)
  have r2: "fst (Verify cfg smsType phone code w2) =
      (case fst (GetVerifyFailCount smsType phone w2) of
         Inl e \<Rightarrow> Some e
       | Inr failCount \<Rightarrow> if maxVerifyFails \<le> failCount then Some ErrSMSVerifyTooMany else Some ErrSMSCodeInvalid)"
    using wrong by (simp add: Verify_result stored split: sum.split)
  show ?thesis
    by (simp add: r1 r2 c [symmetric])
qed

theorem Verify_same_error_for_missing_and_wrong_code_witness:
  "fst (Verify demo_sms_config ''login'' ''13800000000'' ''000000'' demo_world) = Some ErrSMSCodeInvalid
   \<and> fst (Verify demo_sms_config ''login'' ''13800000000'' ''000000'' demo_world_issued) = Some ErrSMSCodeInvalid"
proof -
  have same_counter: "redis_lookup demo_world (verifyFailKey ''login'' ''13800000000'') =
      redis_lookup demo_world_issued (verifyFailKey ''login'' ''13800000000'')"
    by (simp add: arch3_keys demo_world_issued_def demo_world_def redis_lookup_def live_entry_def)
  have same_faults: "redis_faults demo_world = redis_faults demo_world_issued"
    by (simp add: demo_world_issued_def)
  have missing: "redis_lookup demo_world (codeKey ''login'' ''13800000000'') = None"
    by (rule demo_world_cache)
  have stored: "redis_lookup demo_world_issued (codeKey ''login'' ''13800000000'') = Some ''482913''"
    by (simp add: arch3_keys demo_world_issued_def demo_world_def redis_lookup_def live_entry_def)
  have wrong: "''482913'' \<noteq> ''000000''"
    by simp
  have counter: "fst (GetVerifyFailCount ''login'' ''13800000000'' demo_world) = Inr 0 \<and> 0 < maxVerifyFails"
    by (simp add: GetVerifyFailCount_eq demo_world_cache next_fault_def maxVerifyFails_def)
  show ?thesis
    using Verify_same_error_for_missing_and_wrong_code
            [OF same_counter same_faults missing stored wrong, of demo_sms_config] counter
    by blast
qed

text \<open>
  Claim C8 (as stated, on archv2). With no template configured, \<open>Send\<close> of archv2 has
  already stored a code when it finds the template missing, and the error it returns is
  an ad-hoc one.
\<close>

theorem v2_Send_stores_code_before_template_check:
  "fst (v2_Send demo_v2_client_no_template ''login'' ''13800000000'' demo_world) =
     Some (Errorf ''unsupported sms type: login'')
   \<and> redis_lookup demo_world (getRedisKey v2_logicalKeyFormat ''13800000000'' ''login'') = None
   \<and> redis_lookup (snd (v2_Send demo_v2_client_no_template ''login'' ''13800000000'' demo_world))
        (getRedisKey v2_logicalKeyFormat ''13800000000'' ''login'') = Some ''482913''"
  using v2_Send_stores_first [of demo_v2_client_no_template demo_world "''13800000000''" "''login''"]
  by (simp add: demo_v2_facts demo_world_cache)

text \<open>
  Claim C8, amended (arch3). When no template is configured for the purpose, \<open>Send\<close> of
  arch3 returns \<open>ErrSMSTemplateNotFound\<close> and the world is untouched: no cache command
  is issued, no code is stored and no counter changes.
\<close>

theorem Send_without_template_changes_nothing:
  assumes "Templates cfg smsType = None"
  shows "Send cfg smsType phone w = (Some ErrSMSTemplateNotFound, w)"
  using assms by (simp add: Send_def)

theorem Send_without_template_changes_nothing_witness:
  "Send (demo_sms_config\<lparr>Templates := Map.empty\<rparr>) ''login'' ''13800000000'' demo_world =
     (Some ErrSMSTemplateNotFound, demo_world)"
  by (rule Send_without_template_changes_nothing) simp

text \<open>
  Claim C10. In archv2, \<open>Verify\<close> accepts the candidate \<open>777777\<close> for every phone and
  purpose, whatever is stored, and leaves the world as it was (no cache command, nothing
  read or written).
\<close>

theorem v2_Verify_test_code_always_accepted:
  "v2_Verify c smsType phone ''777777'' w = (None, w)"
  by (simp add: v2_Verify_def)

text \<open>
  Claim C4 (as stated, on archv2). When the gateway fails, \<open>Send\<close> of archv2 returns
  an ad-hoc error and leaves the code it stored in the cache: a \<open>Verify\<close> with that
  code then succeeds.
\<close>

theorem v2_Send_failed_delivery_keeps_code:
  "fst (v2_Send demo_v2_client ''login'' ''13800000000'' (demo_world\<lparr>gateway_faults := [True]\<rparr>)) =
     Some (Errorf ''sending the sms failed'')
   \<and> redis_lookup (snd (v2_Send demo_v2_client ''login'' ''13800000000'' (demo_world\<lparr>gateway_faults := [True]\<rparr>)))
        (getRedisKey v2_logicalKeyFormat ''13800000000'' ''login'') = Some ''482913''
   \<and> fst (v2_Verify demo_v2_client ''login'' ''13800000000'' ''482913''
            (snd (v2_Send demo_v2_client ''login'' ''13800000000'' (demo_world\<lparr>gateway_faults := [True]\<rparr>)))) =
       None"
proof -
  let ?w = "demo_world\<lparr>gateway_faults := [True]\<rparr>"
  have g: "next_fault (gateway_faults ?w)"
    by (simp add: next_fault_def)
  note s = v2_Send_stores_first [of demo_v2_client ?w "''13800000000''" "''login''"]
  have a: "fst (v2_Send demo_v2_client ''login'' ''13800000000'' ?w) = Some (Errorf ''sending the sms failed'')"
    using s(1) g by (simp add: demo_v2_facts demo_world_cache)
  have b: "redis_lookup (snd (v2_Send demo_v2_client ''login'' ''13800000000'' ?w))
        (getRedisKey v2_logicalKeyFormat ''13800000000'' ''login'') = Some ''482913''"
    using s(2) g by (simp add: demo_v2_facts demo_world_cache)
  have c: "redis_faults (snd (v2_Send demo_v2_client ''login'' ''13800000000'' ?w)) = []"
    using s(3) g by (simp add: demo_v2_facts demo_world_cache)
  have "fst (v2_Verify demo_v2_client ''login'' ''13800000000'' ''482913''
            (snd (v2_Send demo_v2_client ''login'' ''13800000000'' ?w))) = None"
    by (simp add: v2_Verify_result demo_v2_facts b c next_fault_def)
  with a b show ?thesis by simp
qed

text \<open>
  Claim C4, amended (arch3). When \<open>Send\<close> has stored a fresh code and the gateway call
  fails, it issues the delete of that code and returns \<open>ErrSMSSendFailed\<close>. If the
  delete reaches the cache, the code is absent afterwards, no later \<open>Verify\<close> succeeds
  for any candidate, and a \<open>Verify\<close> with that code returns \<open>ErrSMSCodeInvalid\<close>
  whenever the fail counter is read and below the limit.
\<close>

theorem Send_failed_delivery_removes_code:
  assumes template: "Templates cfg smsType = Some templateID"
      and limits: "checkSendLimit smsType phone w = (None, w1)"
      and gen: "generateCode w1 = (code, w2)"
      and stored: "StoreCode smsType phone code codeTTL w2 = (None, w3)"
      and gateway: "sendSMS cfg phone templateID code w3 = (Some e, w4)"
  shows "Send cfg smsType phone w = (Some ErrSMSSendFailed, snd (DeleteCode smsType phone w4))
         \<and> redis_lookup w4 (codeKey smsType phone) = Some code
         \<and> trace (snd (Send cfg smsType phone w)) = trace w4 @ [EvRedis [DEL (codeKey smsType phone)]]
         \<and> (\<not> next_fault (redis_faults w4) \<longrightarrow>
               redis_lookup (snd (Send cfg smsType phone w)) (codeKey smsType phone) = None
               \<and> (\<forall>candidate d.
                     fst (Verify cfg smsType phone candidate (advance d (snd (Send cfg smsType phone w)))) \<noteq> None)
               \<and> (\<forall>failCount.
                     fst (GetVerifyFailCount smsType phone (snd (Send cfg smsType phone w))) = Inr failCount
                     \<and> failCount < maxVerifyFails \<longrightarrow>
                       fst (Verify cfg smsType phone code (snd (Send cfg smsType phone w))) = Some ErrSMSCodeInvalid))"
proof -
  let ?k = "codeKey smsType phone"
  let ?w5 = "snd (DeleteCode smsType phone w4)"
  have send: "Send cfg smsType phone w = (Some ErrSMSSendFailed, ?w5)"
    using template limits gen stored gateway by (simp add: Send_def)
  have w3: "w3 = store_set ?k code codeTTL (redis_roundtrip [SET ?k code codeTTL] w2)"
    using stored by (simp add: StoreCode_eq split: if_splits)
  have "redis_lookup w3 ?k = Some code"
    unfolding w3 by (rule redis_lookup_store_set_same)
  moreover have "redis w4 = redis w3" "clock w4 = clock w3"
    using gateway sendSMS_fields [of cfg phone templateID code w3] by simp_all
  ultimately have there: "redis_lookup w4 ?k = Some code"
    using redis_lookup_cong [of w4 w3 ?k] by simp
  have tr: "trace ?w5 = trace w4 @ [EvRedis [DEL ?k]]"
    by (simp add: DeleteCode_eq)
  have gone: "redis ?w5 ?k = None" if "\<not> next_fault (redis_faults w4)"
    using that by (simp add: DeleteCode_eq store_del_def)
  have never: "fst (Verify cfg smsType phone candidate (advance d ?w5)) \<noteq> None"
    if "\<not> next_fault (redis_faults w4)" for candidate d
    by (rule Verify_never_succeeds_without_code) (simp add: redis_lookup_absent gone [OF that])
  have invalid: "fst (Verify cfg smsType phone code ?w5) = Some ErrSMSCodeInvalid"
    if "\<not> next_fault (redis_faults w4)"
       "fst (GetVerifyFailCount smsType phone ?w5) = Inr failCount" "failCount < maxVerifyFails"
    for failCount
    using that by (simp add: Verify_result redis_lookup_absent gone)
  show ?thesis
    using there tr gone never invalid by (simp add: send redis_lookup_absent)
qed

theorem Send_failed_delivery_removes_code_witness:
  "fst (Send demo_sms_config ''login'' ''13800000000'' (demo_world\<lparr>gateway_faults := [True]\<rparr>)) =
     Some ErrSMSSendFailed
   \<and> redis_lookup (snd (Send demo_sms_config ''login'' ''13800000000'' (demo_world\<lparr>gateway_faults := [True]\<rparr>)))
        (codeKey ''login'' ''13800000000'') = None
   \<and> fst (Verify demo_sms_config ''login'' ''13800000000'' ''482913''
            (snd (Send demo_sms_config ''login'' ''13800000000'' (demo_world\<lparr>gateway_faults := [True]\<rparr>)))) =
       Some ErrSMSCodeInvalid"
proof -
  let ?w = "demo_world\<lparr>gateway_faults := [True]\<rparr>"
  let ?t = "''login''" and ?p = "''13800000000''"
  let ?w1 = "redis_roundtrip [GET (dayKey ?t ?p)] (redis_roundtrip [GET (minuteKey ?t ?p)] ?w)"
  let ?w2 = "?w1\<lparr>entropy := []\<rparr>"
  let ?w3 = "snd (StoreCode ?t ?p ''482913'' codeTTL ?w2)"
  let ?w4 = "snd (sendSMS demo_sms_config ?p ''T1'' ''482913'' ?w3)"
  have template: "Templates demo_sms_config ?t = Some ''T1''"
    by (simp add: demo_sms_config_def)
  have limits: "checkSendLimit ?t ?p ?w = (None, ?w1)"
    by (rule checkSendLimit_pass) (simp_all add: demo_world_cache)
  have gen: "generateCode ?w1 = (''482913'', ?w2)"
    by (simp add: generateCode_def demo_world_def Sprintf_06d_demo)
  have faults2: "redis_faults ?w2 = []"
    by (simp add: demo_world_def)
  have stored: "StoreCode ?t ?p ''482913'' codeTTL ?w2 = (None, ?w3)"
    using faults2 by (simp add: StoreCode_eq next_fault_def)
  have gateway: "sendSMS demo_sms_config ?p ''T1'' ''482913'' ?w3 = (Some (Errorf ''sms send err''), ?w4)"
    by (simp add: sendSMS_def Let_def StoreCode_eq faults2 next_fault_def demo_world_def)
  have faults4: "redis_faults ?w4 = []"
    by (simp add: sendSMS_fields StoreCode_eq faults2 next_fault_def)
  note inst = Send_failed_delivery_removes_code [OF template limits gen stored gateway]
  have send: "Send demo_sms_config ?t ?p ?w = (Some ErrSMSSendFailed, snd (DeleteCode ?t ?p ?w4))"
    by (rule inst [THEN conjunct1])
  have up4: "\<not> next_fault (redis_faults ?w4)"
    by (simp add: faults4 next_fault_def)
  note after = inst [THEN conjunct2, THEN conjunct2, THEN conjunct2, rule_format, OF up4]
  have lookup5: "redis_lookup (snd (DeleteCode ?t ?p ?w4)) (verifyFailKey ?t ?p) = None"
    using faults2 faults4
    by (simp add: DeleteCode_eq next_fault_def redis_lookup_absent store_del_def sendSMS_fields
          StoreCode_eq store_set_def arch3_keys demo_world_def)
  have faults5: "redis_faults (snd (DeleteCode ?t ?p ?w4)) = []"
    using faults4 by (simp add: DeleteCode_eq next_fault_def)
  have counter: "fst (GetVerifyFailCount ?t ?p (snd (Send demo_sms_config ?t ?p ?w))) = Inr 0
                 \<and> 0 < maxVerifyFails"
    by (simp add: send GetVerifyFailCount_eq lookup5 faults5 next_fault_def maxVerifyFails_def)
  have "fst (Send demo_sms_config ?t ?p ?w) = Some ErrSMSSendFailed"
    by (simp add: send)
  moreover have "redis_lookup (snd (Send demo_sms_config ?t ?p ?w)) (codeKey ?t ?p) = None"
    by (rule after [THEN conjunct1])
  moreover have "fst (Verify demo_sms_config ?t ?p ''482913'' (snd (Send demo_sms_config ?t ?p ?w))) =
      Some ErrSMSCodeInvalid"
    by (rule after [THEN conjunct2, THEN conjunct2, rule_format, OF counter])
  ultimately show ?thesis by blast
qed

text \<open>
  Claim C5. In the arch3 client, for every purpose and phone:
  (a) whenever the fail counter reads at least 5, \<open>Verify\<close> fails with
  \<open>ErrSMSVerifyTooMany\<close> for every candidate, also the stored code, and the only thing it
  does is the one read of the counter: the stored code is not read;
  (b) with the cache answering and the counter at zero, five attempts with codes other
  than the stored one, each less than an hour after the one before and all while the
  stored code is valid, each fail with \<open>ErrSMSCodeInvalid\<close>; the code is then still
  stored, the counter reads 5, and a sixth attempt within the hour fails with
  \<open>ErrSMSVerifyTooMany\<close> whatever code it supplies;
  (c) with the cache answering, after a \<open>Send\<close> that succeeds the counter reads 0 and the
  code that was just stored is accepted.
\<close>

theorem Verify_lockout_after_five_failures:
  "(\<forall>n code. fst (GetVerifyFailCount t p w) = Inr n \<longrightarrow> maxVerifyFails \<le> n \<longrightarrow>
       Verify cfg t p code w =
         (Some ErrSMSVerifyTooMany, redis_roundtrip [GET (verifyFailKey t p)] w))
   \<and> (redis_faults w = [] \<longrightarrow> redis_lookup w (verifyFailKey t p) = None \<longrightarrow>
       length attempts = 5 \<longrightarrow>
       (\<forall>a \<in> set attempts. 0 \<le> fst a \<and> fst a < verifyFailTTL \<and> snd a \<noteq> stored) \<longrightarrow>
       redis_lookup (advance (sum_list (map fst attempts)) w) (codeKey t p) = Some stored \<longrightarrow>
         fst (Verify_each cfg t p attempts w) = replicate 5 (Some ErrSMSCodeInvalid)
       \<and> redis_lookup (snd (Verify_each cfg t p attempts w)) (codeKey t p) = Some stored
       \<and> fst (GetVerifyFailCount t p (snd (Verify_each cfg t p attempts w))) = Inr 5
       \<and> (\<forall>d code. 0 \<le> d \<longrightarrow> d < verifyFailTTL \<longrightarrow>
             fst (Verify_each cfg t p (attempts @ [(d, code)]) w) =
               replicate 5 (Some ErrSMSCodeInvalid) @ [Some ErrSMSVerifyTooMany]))
   \<and> (redis_faults wl = [] \<longrightarrow> fst (Send cfg t p wl) = None \<longrightarrow>
         fst (GetVerifyFailCount t p (snd (Send cfg t p wl))) = Inr 0
       \<and> (\<exists>code'. redis_lookup (snd (Send cfg t p wl)) (codeKey t p) = Some code'
             \<and> fst (Verify cfg t p code' (snd (Send cfg t p wl))) = None))"
proof (intro conjI allI impI)
  fix n code
  assume "fst (GetVerifyFailCount t p w) = Inr n" "maxVerifyFails \<le> n"
  then show "Verify cfg t p code w =
         (Some ErrSMSVerifyTooMany, redis_roundtrip [GET (verifyFailKey t p)] w)"
    by (rule Verify_locked)
next
  assume up: "redis_faults w = []" and zero: "redis_lookup w (verifyFailKey t p) = None"
     and len: "length attempts = 5"
     and ne: "\<forall>a \<in> set attempts. 0 \<le> fst a \<and> fst a < verifyFailTTL \<and> snd a \<noteq> stored"
     and st: "redis_lookup (advance (sum_list (map fst attempts)) w) (codeKey t p) = Some stored"
  let ?w5 = "snd (Verify_each cfg t p attempts w)"
  note five = Verify_each_five_wrong [OF up zero len ne st, of cfg]
  show r5: "fst (Verify_each cfg t p attempts w) = replicate 5 (Some ErrSMSCodeInvalid)"
    by (rule five(1))
  show "redis_lookup ?w5 (codeKey t p) = Some stored"
    by (rule five(8))
  have "fail_count_is ?w5 t p 5"
    using five(7) by (rule fail_count_is_fresh) (simp_all add: verifyFailTTL_def)
  then show "fst (GetVerifyFailCount t p ?w5) = Inr 5"
    using five(2) by (intro GetVerifyFailCount_counted) (simp_all add: next_fault_def)
  fix d :: int and code
  assume d: "0 \<le> d" "d < verifyFailTTL"
  have "Verify cfg t p code (advance d ?w5) =
           (Some ErrSMSVerifyTooMany, redis_roundtrip [GET (verifyFailKey t p)] (advance d ?w5))"
    using five(2) five(7) _ _ d by (rule Verify_locked_for_the_hour) (simp_all add: maxVerifyFails_def)
  then show "fst (Verify_each cfg t p (attempts @ [(d, code)]) w) =
               replicate 5 (Some ErrSMSCodeInvalid) @ [Some ErrSMSVerifyTooMany]"
    by (simp add: Verify_each_append r5)
next
  assume up: "redis_faults wl = []" and ok: "fst (Send cfg t p wl) = None"
  note after = Send_success_resets [OF up ok]
  show "fst (GetVerifyFailCount t p (snd (Send cfg t p wl))) = Inr 0"
    using after(1,2) by (rule GetVerifyFailCount_zero)
  show "\<exists>code'. redis_lookup (snd (Send cfg t p wl)) (codeKey t p) = Some code'
             \<and> fst (Verify cfg t p code' (snd (Send cfg t p wl))) = None"
    using after(3) Verify_accepts [OF after] by blast
qed

theorem Verify_lockout_after_five_failures_witness:
  "fst (Send demo_sms_config ''login'' ''13800000000'' demo_world_two_codes) = None
   \<and> redis_lookup demo_world_sent (codeKey ''login'' ''13800000000'') = Some ''482913''
   \<and> fst (Verify_each demo_sms_config ''login'' ''13800000000''
            (demo_five_wrong @ [(20, ''482913'')]) demo_world_sent) =
       [Some ErrSMSCodeInvalid, Some ErrSMSCodeInvalid, Some ErrSMSCodeInvalid,
        Some ErrSMSCodeInvalid, Some ErrSMSCodeInvalid, Some ErrSMSVerifyTooMany]
   \<and> fst (GetVerifyFailCount ''login'' ''13800000000''
        (advance 20 (snd (Verify_each demo_sms_config ''login'' ''13800000000''
                            demo_five_wrong demo_world_sent)))) = Inr 5
   \<and> Verify demo_sms_config ''login'' ''13800000000'' ''482913''
        (advance 20 (snd (Verify_each demo_sms_config ''login'' ''13800000000''
                            demo_five_wrong demo_world_sent))) =
       (Some ErrSMSVerifyTooMany, demo_world_locked)
   \<and> redis_lookup demo_world_locked (codeKey ''login'' ''13800000000'') = Some ''482913''
   \<and> fst (Send demo_sms_config ''login'' ''13800000000'' (advance 41 demo_world_locked)) = None
   \<and> fst (GetVerifyFailCount ''login'' ''13800000000''
        (snd (Send demo_sms_config ''login'' ''13800000000'' (advance 41 demo_world_locked)))) = Inr 0
   \<and> fst (Verify demo_sms_config ''login'' ''13800000000'' ''271828''
        (snd (Send demo_sms_config ''login'' ''13800000000'' (advance 41 demo_world_locked)))) = None"
proof -
  let ?t = "''login''" and ?p = "''13800000000''"
  let ?w5 = "snd (Verify_each demo_sms_config ?t ?p demo_five_wrong demo_world_sent)"
  let ?wl = "advance 41 demo_world_locked"
  note locked = demo_world_locked_eq
  have zero: "redis_lookup demo_world_sent (verifyFailKey ?t ?p) = None"
    by (rule redis_lookup_absent) (rule demo_sent_keys)
  have st: "redis_lookup (advance (sum_list (map fst demo_five_wrong)) demo_world_sent) (codeKey ?t ?p) =
              Some ''482913''"
    by (simp add: demo_five_wrong_facts(3) redis_lookup_def live_entry_def demo_sent_keys
          demo_world_sent_facts(5))
  have s0: "redis_lookup demo_world_sent (codeKey ?t ?p) = Some ''482913''"
    by (simp add: redis_lookup_def live_entry_def demo_sent_keys demo_world_sent_facts(5))
  have wl: "redis_faults ?wl = []" "gateway_faults ?wl = []" "entropy ?wl = [271828]"
    unfolding locked(2) by (simp_all add: locked(3-6))
  have lk: "clock demo_world_locked = 1060" "redis demo_world_locked = redis ?w5"
    unfolding locked(2) by (simp_all add: locked(3-6))
  have s6: "redis_lookup demo_world_locked (codeKey ?t ?p) = Some ''482913''"
    unfolding locked(2) by (simp add: redis_lookup_def live_entry_def locked(6,7))
  have minute: "redis_lookup ?wl (minuteKey ?t ?p) = None"
    by (simp add: redis_lookup_def live_entry_def lk locked(8))
  have day: "redis_lookup ?wl (dayKey ?t ?p) = Some ''1''"
    by (simp add: redis_lookup_def live_entry_def lk locked(9))
  have lim: "fst (checkSendLimit ?t ?p ?wl) = None"
    using wl(1) minute day
    by (simp add: checkSendLimit_def GetSendCount_def rdb_Get_Int_eq next_fault_def Atoi_1
          maxPerMin_def maxPerDay_def)
  have tpl: "Templates demo_sms_config ?t = Some ''T1''"
    by (simp add: demo_sms_config_def)
  have ok: "fst (Send demo_sms_config ?t ?p ?wl) = None"
    using wl(1) tpl lim wl(2) by (rule Send_succeeds_within_limits)
  note inst = Verify_lockout_after_five_failures [of ?t ?p demo_world_sent demo_sms_config
      demo_five_wrong "''482913''" ?wl]
  note part2 = inst [THEN conjunct2, THEN conjunct1, rule_format,
      OF demo_world_sent_facts(2) zero demo_five_wrong_facts(1) _ st]
  note part3 = inst [THEN conjunct2, THEN conjunct2, rule_format, OF wl(1) ok]
  have sixth: "20 < verifyFailTTL"
    by (simp add: verifyFailTTL_def)
  have a: "fst (Verify_each demo_sms_config ?t ?p (demo_five_wrong @ [(20, ''482913'')]) demo_world_sent) =
             replicate 5 (Some ErrSMSCodeInvalid) @ [Some ErrSMSVerifyTooMany]"
    using part2 demo_five_wrong_facts(2) sixth by (metis zero_le_numeral)
  have rep: "replicate 5 (Some ErrSMSCodeInvalid) @ [Some ErrSMSVerifyTooMany] =
     [Some ErrSMSCodeInvalid, Some ErrSMSCodeInvalid, Some ErrSMSCodeInvalid,
      Some ErrSMSCodeInvalid, Some ErrSMSCodeInvalid, Some ErrSMSVerifyTooMany]"
    by (simp add: numeral_eq_Suc)
  have ent: "entropy (snd (checkSendLimit ?t ?p ?wl)) = [271828]"
    unfolding entropy_frame by (rule wl(3))
  have "fst (generateCode (snd (checkSendLimit ?t ?p ?wl))) = ''271828''"
    unfolding generateCode_def ent by (simp add: Sprintf_06d_demo_second)
  then have new: "redis_lookup (snd (Send demo_sms_config ?t ?p ?wl)) (codeKey ?t ?p) = Some ''271828''"
    using Send_success_resets(3) [OF wl(1) ok] by simp
  from part3 have c: "fst (GetVerifyFailCount ?t ?p (snd (Send demo_sms_config ?t ?p ?wl))) = Inr 0"
    by blast
  from part3 obtain code' where
    "redis_lookup (snd (Send demo_sms_config ?t ?p ?wl)) (codeKey ?t ?p) = Some code'"
    "fst (Verify demo_sms_config ?t ?p code' (snd (Send demo_sms_config ?t ?p ?wl))) = None"
    by blast
  with new have d: "fst (Verify demo_sms_config ?t ?p ''271828'' (snd (Send demo_sms_config ?t ?p ?wl))) = None"
    by simp
  have five_le: "maxVerifyFails \<le> 5"
    by (simp add: maxVerifyFails_def)
  have b: "Verify demo_sms_config ?t ?p ''482913'' (advance 20 ?w5) =
             (Some ErrSMSVerifyTooMany, demo_world_locked)"
    unfolding locked(2)
    by (rule Verify_lockout_after_five_failures [of ?t ?p "advance 20 ?w5" demo_sms_config,
          THEN conjunct1, rule_format, OF locked(10) five_le])
  show ?thesis
    using demo_world_sent_facts(1) s0 a [unfolded rep] locked(10) b s6 ok c d by (intro conjI)
qed

end
